theory Spec2Isabelle
  imports Main "HOL-Library.AList"
begin

section \<open>JavaScript values\<close>

text \<open>
  The extraction script \<^verbatim>\<open>scripts/extract-all-data.js\<close> handles the remote's answers as
  parsed JSON. A parsed value is a \<open>json\<close>; JavaScript's \<^verbatim>\<open>undefined\<close> (a missing
  member, a function that falls off its end) is \<open>None\<close> of \<open>json option\<close>. JSON numbers
  are taken to be integers. An object keeps its members in insertion order, each key once.
\<close>

datatype json =
    JNull
  | JBool bool
  | JNum int
  | JStr string
  | JArr "json list"
  | JObj "(string \<times> json) list"

type_synonym jsval = "json option"

text \<open>An object under construction in memory: a member may hold \<^verbatim>\<open>undefined\<close>.\<close>

type_synonym obj = "(string \<times> jsval) list"

text \<open>
  Everything the script can throw. \<open>FetchError\<close> is a rejected \<^verbatim>\<open>fetch\<close>,
  \<open>HttpError\<close> the \<^verbatim>\<open>HTTP ${status}: ${statusText}\<close> error, \<open>SyntaxError\<close> a body
  that is not JSON, \<open>GraphQLError\<close> the \<^verbatim>\<open>GraphQL: ...\<close> error with the \<^verbatim>\<open>message\<close> of
  every reported error, \<open>TypeError\<close> a member read on \<^verbatim>\<open>null\<close> or \<^verbatim>\<open>undefined\<close>, a call
  of something that is no function, or an iteration over something not iterable.
\<close>

datatype error =
    FetchError string
  | HttpError nat string
  | SyntaxError
  | GraphQLError "jsval list"
  | TypeError

text \<open>Truthiness, as \<^verbatim>\<open>if (v)\<close>, \<^verbatim>\<open>!v\<close> and \<^verbatim>\<open>a || b\<close> read it.\<close>

fun truthy :: "jsval \<Rightarrow> bool" where
  "truthy None = False"
| "truthy (Some JNull) = False"
| "truthy (Some (JBool b)) = b"
| "truthy (Some (JNum n)) = (n \<noteq> 0)"
| "truthy (Some (JStr s)) = (s \<noteq> [])"
| "truthy (Some (JArr xs)) = True"
| "truthy (Some (JObj fs)) = True"

text \<open>
  \<^verbatim>\<open>v?.k\<close>: \<^verbatim>\<open>undefined\<close> on \<^verbatim>\<open>null\<close> and \<^verbatim>\<open>undefined\<close>, the member of an object, and
  \<^verbatim>\<open>undefined\<close> on a primitive or an array (the script reads no index and no built-in
  member this way).
\<close>

fun opt_prop :: "jsval \<Rightarrow> string \<Rightarrow> jsval" where
  "opt_prop (Some (JObj fs)) k = map_of fs k"
| "opt_prop v k = None"

text \<open>\<^verbatim>\<open>v.k\<close> and \<^verbatim>\<open>v[k]\<close>: a TypeError on \<^verbatim>\<open>null\<close> and \<^verbatim>\<open>undefined\<close>.\<close>

definition get_prop :: "jsval \<Rightarrow> string \<Rightarrow> error + jsval" where
  "get_prop v k = (if v = None \<or> v = Some JNull then Inl TypeError else Inr (opt_prop v k))"

text \<open>
  \<^verbatim>\<open>for (const x of v)\<close>: the elements of an array, the characters of a string, a
  TypeError on anything else.
\<close>

fun js_iter :: "jsval \<Rightarrow> error + jsval list" where
  "js_iter (Some (JArr xs)) = Inr (map Some xs)"
| "js_iter (Some (JStr s)) = Inr (map (\<lambda>c. Some (JStr [c])) s)"
| "js_iter v = Inl TypeError"

text \<open>
  The numbers the script counts with. \<open>NaN\<close> arises from adding \<^verbatim>\<open>undefined\<close>;
  \<open>NullNum\<close> is the \<^verbatim>\<open>null\<close> that a \<open>NaN\<close> becomes once written as JSON and read back,
  and it adds like zero.
\<close>

datatype jsnum = Num nat | NaN | NullNum

fun js_add :: "jsnum \<Rightarrow> jsnum \<Rightarrow> jsnum" where
  "js_add (Num a) (Num b) = Num (a + b)"
| "js_add NullNum (Num b) = Num b"
| "js_add (Num a) NullNum = Num a"
| "js_add NullNum NullNum = Num 0"
| "js_add a b = NaN"

fun to_file_num :: "jsnum \<Rightarrow> jsnum" where
  "to_file_num NaN = NullNum"
| "to_file_num n = n"

text \<open>
  \<^verbatim>\<open>v.length\<close> of a value that passed a truthiness test: the length of an array or a
  string, \<^verbatim>\<open>undefined\<close> (which adds as \<open>NaN\<close>) otherwise. An object that carries a
  member called \<^verbatim>\<open>length\<close> of its own is outside the model.
\<close>

fun js_length :: "jsval \<Rightarrow> jsnum" where
  "js_length (Some (JArr xs)) = Num (length xs)"
| "js_length (Some (JStr s)) = Num (length s)"
| "js_length v = NaN"

text \<open>Decimal digits of a number, for keys and template strings.\<close>

definition digit :: "nat \<Rightarrow> char" where
  "digit n = ''0123456789'' ! (n mod 10)"

fun dec :: "nat \<Rightarrow> string" where
  "dec n = (if n < 10 then [digit n] else dec (n div 10) @ [digit n])"

text \<open>
  \<^verbatim>\<open>`${v}`\<close>: the string a template literal makes of a value. An array joins the
  strings of its elements with commas, \<^verbatim>\<open>null\<close> elements giving the empty string.
\<close>

fun join_comma :: "string list \<Rightarrow> string" where
  "join_comma [] = []"
| "join_comma [s] = s"
| "join_comma (s # t # ss) = s @ '','' @ join_comma (t # ss)"

fun to_string :: "json \<Rightarrow> string" where
  "to_string JNull = ''null''"
| "to_string (JBool b) = (if b then ''true'' else ''false'')"
| "to_string (JNum i) = (if i < 0 then ''-'' @ dec (nat (- i)) else dec (nat i))"
| "to_string (JStr s) = s"
| "to_string (JArr xs) = join_comma (map (\<lambda>x. if x = JNull then [] else to_string x) xs)"
| "to_string (JObj fs) = ''[object Object]''"

definition js_string :: "jsval \<Rightarrow> string" where
  "js_string v = (case v of None \<Rightarrow> ''undefined'' | Some j \<Rightarrow> to_string j)"

text \<open>
  \<^verbatim>\<open>{...v}\<close>: the own members of an object, the indexed elements of an array or a
  string, nothing for \<^verbatim>\<open>null\<close>, \<^verbatim>\<open>undefined\<close> and the other primitives.
\<close>

fun spread :: "jsval \<Rightarrow> obj" where
  "spread (Some (JObj fs)) = map (\<lambda>(k, v). (k, Some v)) fs"
| "spread (Some (JArr xs)) = zip (map dec [0..<length xs]) (map Some xs)"
| "spread (Some (JStr s)) = zip (map dec [0..<length s]) (map (\<lambda>c. Some (JStr [c])) s)"
| "spread v = []"

text \<open>
  One member of an object literal, \<^verbatim>\<open>k: v\<close>, added to the members written so far: a key
  already there keeps its place and takes the new value.
\<close>

definition obj_set :: "string \<Rightarrow> jsval \<Rightarrow> obj \<Rightarrow> obj" where
  "obj_set k v ob = AList.update k v ob"

definition obj_spread :: "obj \<Rightarrow> obj \<Rightarrow> obj" where
  "obj_spread src ob = fold (\<lambda>(k, v). obj_set k v) src ob"

definition obj_get :: "obj \<Rightarrow> string \<Rightarrow> jsval" where
  "obj_get ob k = (case map_of ob k of None \<Rightarrow> None | Some v \<Rightarrow> v)"

text \<open>\<^verbatim>\<open>JSON.stringify\<close> of an object: members holding \<^verbatim>\<open>undefined\<close> are left out.\<close>

definition stringify :: "obj \<Rightarrow> json" where
  "stringify ob = JObj (List.map_filter (\<lambda>(k, v). map_option (Pair k) v) ob)"

section \<open>Configuration\<close>

text \<open>
  \<^verbatim>\<open>config.js\<close> as the script requires it. A member that is missing is \<open>None\<close>; the
  numeric settings are natural numbers.
\<close>

record config =
  PRINTAVO_EMAIL :: "string option"
  PRINTAVO_TOKEN :: "string option"
  RATE_LIMIT_DELAY :: "nat option"
  RETRY_DELAY :: "nat option"
  MAX_RETRIES :: "nat option"

text \<open>\<^verbatim>\<open>!s\<close> for a string member: missing or empty.\<close>

definition not_str :: "string option \<Rightarrow> bool" where
  "not_str s = (s = None \<or> s = Some [])"

text \<open>
  The check at the top of the script (lines 38 to 42): when it holds the script prints
  an error and exits with status 1 before anything else runs.
\<close>

definition config_rejected :: "config \<Rightarrow> bool" where
  "config_rejected c =
     (not_str (PRINTAVO_EMAIL c) \<or> not_str (PRINTAVO_TOKEN c) \<or>
      PRINTAVO_EMAIL c = Some ''your-email@example.com'')"

text \<open>\<^verbatim>\<open>CONFIG.X = CONFIG.X || d\<close>: a missing or zero setting takes the default.\<close>

definition or_default :: "nat option \<Rightarrow> nat \<Rightarrow> nat" where
  "or_default v d = (case v of None \<Rightarrow> d | Some n \<Rightarrow> if n = 0 then d else n)"

definition rate_limit_delay :: "config \<Rightarrow> nat" where
  "rate_limit_delay c = or_default (RATE_LIMIT_DELAY c) 650"

definition retry_delay :: "config \<Rightarrow> nat" where
  "retry_delay c = or_default (RETRY_DELAY c) 5000"

definition max_retries :: "config \<Rightarrow> nat" where
  "max_retries c = or_default (MAX_RETRIES c) 3"

section \<open>Requests and the remote\<close>

datatype order_type = Invoice | Quote

fun type_name :: "order_type \<Rightarrow> string" where
  "type_name Invoice = ''invoice''"
| "type_name Quote = ''quote''"

datatype query =
    LIST_INVOICES_QUERY
  | LIST_QUOTES_QUERY
  | GET_ORDER_HEADER order_type
  | GET_ORDER_LINE_ITEMS order_type
  | GET_ORDER_FILES_FINANCIAL order_type
  | VERIFY_ACCESS_QUERY

text \<open>A request is a query and its variables object.\<close>

type_synonym request = "query \<times> obj"

text \<open>
  What one HTTP exchange can come to: \<^verbatim>\<open>fetch\<close> rejects, or a response arrives with a
  status, a status text and a body that parses as JSON or does not.
\<close>

datatype body = NotJson | Json json

datatype exchange =
    NetworkFailure string
  | Response nat string body

text \<open>
  The remote is the environment. The script calls \<^verbatim>\<open>graphqlRequest\<close> at fixed places
  of the program, so the calls of a run are numbered in program order; the remote gives,
  for the call's number, its request and the number of the attempt (from 1), the time in
  milliseconds the exchange takes and what it comes to. Any behaviour of a real server
  during a run is one such function.
\<close>

type_synonym remote = "nat \<Rightarrow> request \<Rightarrow> nat \<Rightarrow> nat \<times> exchange"

definition response_ok :: "nat \<Rightarrow> bool" where
  "response_ok status = (200 \<le> status \<and> status \<le> 299)"

text \<open>
  The error thrown for \<^verbatim>\<open>result.errors.map(e => e.message).join(', ')\<close>: the messages
  of an array of errors; a TypeError when \<^verbatim>\<open>errors\<close> is no array or an element is
  \<^verbatim>\<open>null\<close>.
\<close>

definition graphql_error :: "jsval \<Rightarrow> error" where
  "graphql_error errs =
     (case errs of
        Some (JArr es) \<Rightarrow>
          if JNull \<in> set es then TypeError
          else GraphQLError (map (\<lambda>e. opt_prop (Some e) ''message'') es)
      | _ \<Rightarrow> TypeError)"

text \<open>
  The body of the \<^verbatim>\<open>try\<close> block of \<^verbatim>\<open>graphqlRequest\<close> (lines 283 to 303) on one
  exchange: \<open>Inl\<close> is what it throws, \<open>Inr\<close> the \<^verbatim>\<open>result.data\<close> it returns.
\<close>

definition read_result :: "exchange \<Rightarrow> error + jsval" where
  "read_result ex =
     (case ex of
        NetworkFailure m \<Rightarrow> Inl (FetchError m)
      | Response status text b \<Rightarrow>
          if \<not> response_ok status then Inl (HttpError status text)
          else (case b of
                  NotJson \<Rightarrow> Inl SyntaxError
                | Json res \<Rightarrow>
                    (case get_prop (Some res) ''errors'' of
                       Inl e \<Rightarrow> Inl e
                     | Inr errs \<Rightarrow>
                         (case get_prop (Some res) ''data'' of
                            Inl e \<Rightarrow> Inl e
                          | Inr data \<Rightarrow>
                              if truthy errs \<and> \<not> truthy data then Inl (graphql_error errs)
                              else Inr data))))"

text \<open>
  One call of \<^verbatim>\<open>graphqlRequest\<close>, seen from outside: what it resolves or rejects with,
  when it settles, when each attempt was sent, and the waits between attempts.
\<close>

record outcome =
  result :: "error + jsval"
  settled :: nat
  sent :: "nat list"
  waits :: "nat list"

text \<open>
  The loop of \<^verbatim>\<open>graphqlRequest\<close> (lines 281 to 315) from attempt \<open>attempt\<close> on, started
  at time \<open>t\<close>. A loop that never runs falls off the end of the function, which then
  returns \<^verbatim>\<open>undefined\<close>.
\<close>

function request_loop ::
  "config \<Rightarrow> (nat \<Rightarrow> nat \<times> exchange) \<Rightarrow> nat \<Rightarrow> nat \<Rightarrow> nat \<Rightarrow> outcome" where
  "request_loop cfg script retries attempt t =
     (if attempt \<le> retries then
        (case script attempt of
           (latency, ex) \<Rightarrow>
             (case read_result ex of
                Inr data \<Rightarrow>
                  \<lparr>result = Inr data, settled = t + latency, sent = [t], waits = []\<rparr>
              | Inl err \<Rightarrow>
                  if attempt < retries then
                    (let waitTime = retry_delay cfg * attempt;
                         rest = request_loop cfg script retries (attempt + 1)
                                  (t + latency + waitTime)
                     in rest\<lparr>sent := t # sent rest, waits := waitTime # waits rest\<rparr>)
                  else \<lparr>result = Inl err, settled = t + latency, sent = [t], waits = []\<rparr>))
      else \<lparr>result = Inr None, settled = t, sent = [], waits = []\<rparr>)"
  by pat_completeness auto
termination
  by (relation "measure (\<lambda>(cfg, script, retries, attempt, t). Suc retries - attempt)") auto

declare request_loop.simps [simp del]

text \<open>\<^verbatim>\<open>graphqlRequest(query, variables)\<close> with the default \<^verbatim>\<open>retries = CONFIG.MAX_RETRIES\<close>.\<close>

definition graphqlRequest_at :: "config \<Rightarrow> (nat \<Rightarrow> nat \<times> exchange) \<Rightarrow> nat \<Rightarrow> outcome" where
  "graphqlRequest_at cfg script t = request_loop cfg script (max_retries cfg) 1 t"

section \<open>The files of the data directory\<close>

text \<open>
  A file that is read back with \<^verbatim>\<open>JSON.parse\<close> is absent, holds something that does
  not parse, or holds a value. A value that parses is taken to have the shape the script
  itself writes.
\<close>

datatype 'a stored = Absent | Unparseable | Content 'a

text \<open>
  \<^verbatim>\<open>progress.json\<close>. \<open>phase\<close> is \<open>None\<close> when the member is missing; the timestamps
  are clock readings.
\<close>

record progress =
  phase :: "string option"
  lastProcessedVisualId :: jsval
  invoicesProcessed :: nat
  quotesProcessed :: nat
  totalProductionFiles :: jsnum
  totalLineItemMockups :: jsnum
  totalImprintMockups :: jsnum
  errors :: nat
  startedAt :: nat
  lastUpdated :: nat

text \<open>
  One entry of \<^verbatim>\<open>errors.json\<close>. The script stores \<^verbatim>\<open>error.message\<close>; the entry holds
  the error the message is made from.
\<close>

record error_data =
  e_type :: order_type
  e_visualId :: jsval
  e_printavoId :: jsval
  e_error :: error
  e_retries :: nat
  e_timestamp :: nat

record summary =
  completedAt :: nat
  invoicesExtracted :: nat
  quotesExtracted :: nat
  totalOrders :: nat
  s_totalProductionFiles :: jsnum
  s_totalLineItemMockups :: jsnum
  s_totalImprintMockups :: jsnum
  totalFiles :: jsnum
  s_errors :: nat

text \<open>
  The state a run works on: the clock in milliseconds, the number of
  \<^verbatim>\<open>graphqlRequest\<close> calls made so far, every HTTP request sent (with the time it was
  sent), the order files by path, \<^verbatim>\<open>progress.json\<close> together with every version of it
  written so far, \<^verbatim>\<open>errors.json\<close> and \<^verbatim>\<open>summary.json\<close>. Writing a file always
  succeeds; console output is left out.
\<close>

record world =
  clock :: nat
  calls :: nat
  requests :: "(nat \<times> request) list"
  order_files :: "string \<rightharpoonup> json"
  progress_file :: "progress stored"
  checkpoints :: "progress list"
  errors_file :: "error_data list stored"
  summary_file :: "summary option"

text \<open>\<^verbatim>\<open>await delay(ms)\<close>.\<close>

definition delay :: "nat \<Rightarrow> world \<Rightarrow> world" where
  "delay ms w = w\<lparr>clock := clock w + ms\<rparr>"

text \<open>\<^verbatim>\<open>new Date().toISOString()\<close>: the clock reading stands for the timestamp.\<close>

definition toISOString :: "nat \<Rightarrow> json" where
  "toISOString t = JStr (dec t)"

definition initial_progress :: "nat \<Rightarrow> progress" where
  "initial_progress now =
     \<lparr>phase = Some ''invoices'', lastProcessedVisualId = Some JNull,
      invoicesProcessed = 0, quotesProcessed = 0,
      totalProductionFiles = Num 0, totalLineItemMockups = Num 0, totalImprintMockups = Num 0,
      errors = 0, startedAt = now, lastUpdated = now\<rparr>"

text \<open>
  \<^verbatim>\<open>loadProgress\<close> (lines 193 to 213): the parsed file when it exists and parses, the
  initial state otherwise (the \<^verbatim>\<open>catch\<close> only logs).
\<close>

definition loadProgress :: "world \<Rightarrow> progress" where
  "loadProgress w =
     (case progress_file w of
        Content p \<Rightarrow> p
      | Unparseable \<Rightarrow> initial_progress (clock w)
      | Absent \<Rightarrow> initial_progress (clock w))"

text \<open>What \<^verbatim>\<open>JSON.stringify\<close> keeps of a progress object: a \<open>NaN\<close> total is written as \<^verbatim>\<open>null\<close>.\<close>

definition progress_on_file :: "progress \<Rightarrow> progress" where
  "progress_on_file p =
     p\<lparr>totalProductionFiles := to_file_num (totalProductionFiles p),
       totalLineItemMockups := to_file_num (totalLineItemMockups p),
       totalImprintMockups := to_file_num (totalImprintMockups p)\<rparr>"

text \<open>
  \<^verbatim>\<open>saveProgress\<close> (lines 215 to 218) stamps the object it is given, which the caller
  goes on using, and writes it.
\<close>

definition saveProgress :: "progress \<Rightarrow> world \<Rightarrow> progress \<times> world" where
  "saveProgress p w =
     (let p' = p\<lparr>lastUpdated := clock w\<rparr>
      in (p', w\<lparr>progress_file := Content (progress_on_file p'),
                checkpoints := checkpoints w @ [progress_on_file p']\<rparr>))"

text \<open>
  \<^verbatim>\<open>loadErrors\<close> (lines 220 to 227): the entries of the file, or none when it is absent
  or does not parse.
\<close>

definition loadErrors :: "world \<Rightarrow> error_data list" where
  "loadErrors w =
     (case errors_file w of
        Content es \<Rightarrow> es
      | Unparseable \<Rightarrow> []
      | Absent \<Rightarrow> [])"

text \<open>
  \<^verbatim>\<open>saveError\<close> (lines 229 to 233): the entry, with the current time as its timestamp,
  is put after the entries loaded and the file is written again.
\<close>

definition saveError :: "error_data \<Rightarrow> world \<Rightarrow> world" where
  "saveError errorData w =
     w\<lparr>errors_file := Content (loadErrors w @ [errorData\<lparr>e_timestamp := clock w\<rparr>])\<rparr>"

text \<open>
  The path of an order file below the data directory:
  \<^verbatim>\<open>path.join(dir, `${visualId}.json`)\<close> with \<^verbatim>\<open>dir\<close> chosen by
  \<^verbatim>\<open>type === 'invoice'\<close>. The normalisation \<^verbatim>\<open>path.join\<close> applies to separators inside
  the name is left out.
\<close>

definition order_path :: "order_type \<Rightarrow> jsval \<Rightarrow> string" where
  "order_path ty visualId =
     (if ty = Invoice then ''invoices'' else ''quotes'') @ ''/'' @ js_string visualId @ ''.json''"

text \<open>\<^verbatim>\<open>orderExists\<close> (lines 235 to 238) and \<^verbatim>\<open>saveOrder\<close> (lines 240 to 243).\<close>

definition orderExists :: "world \<Rightarrow> order_type \<Rightarrow> jsval \<Rightarrow> bool" where
  "orderExists w ty visualId = (order_files w (order_path ty visualId) \<noteq> None)"

definition saveOrder :: "order_type \<Rightarrow> jsval \<Rightarrow> obj \<Rightarrow> world \<Rightarrow> world" where
  "saveOrder ty visualId data w =
     w\<lparr>order_files := (order_files w)(order_path ty visualId \<mapsto> stringify data)\<rparr>"

section \<open>Counting attachments\<close>

text \<open>
  The two inner loops of \<^verbatim>\<open>countFiles\<close> (lines 257 to 261 and 264 to 268) have the
  same shape: for each element, add the length of \<^verbatim>\<open>mockups.nodes\<close> when it is there.
  Reading \<^verbatim>\<open>mockups\<close> off a \<^verbatim>\<open>null\<close> element throws.
\<close>

fun count_mockups :: "jsval list \<Rightarrow> jsnum \<Rightarrow> error + jsnum" where
  "count_mockups [] acc = Inr acc"
| "count_mockups (item # rest) acc =
     (case get_prop item ''mockups'' of
        Inl e \<Rightarrow> Inl e
      | Inr m \<Rightarrow>
          count_mockups rest
            (if truthy (opt_prop m ''nodes'') then js_add acc (js_length (opt_prop m ''nodes''))
             else acc))"

text \<open>\<^verbatim>\<open>if (group.k?.nodes) { for (const x of group.k.nodes) ... }\<close> for one group.\<close>

definition count_member :: "jsval \<Rightarrow> string \<Rightarrow> jsnum \<Rightarrow> error + jsnum" where
  "count_member grp k acc =
     (case get_prop grp k of
        Inl e \<Rightarrow> Inl e
      | Inr c \<Rightarrow>
          if truthy (opt_prop c ''nodes'') then
            (case js_iter (opt_prop c ''nodes'') of
               Inl e \<Rightarrow> Inl e
             | Inr xs \<Rightarrow> count_mockups xs acc)
          else Inr acc)"

fun count_groups :: "jsval list \<Rightarrow> jsnum \<times> jsnum \<Rightarrow> error + jsnum \<times> jsnum" where
  "count_groups [] acc = Inr acc"
| "count_groups (grp # rest) (lineItemMockups, imprintMockups) =
     (case count_member grp ''lineItems'' lineItemMockups of
        Inl e \<Rightarrow> Inl e
      | Inr li \<Rightarrow>
          (case count_member grp ''imprints'' imprintMockups of
             Inl e \<Rightarrow> Inl e
           | Inr im \<Rightarrow> count_groups rest (li, im)))"

record file_counts =
  productionFiles :: jsnum
  lineItemMockups :: jsnum
  imprintMockups :: jsnum

text \<open>\<^verbatim>\<open>countFiles\<close> (lines 245 to 274).\<close>

definition countFiles :: "obj \<Rightarrow> error + file_counts" where
  "countFiles data =
     (let pf = opt_prop (obj_get data ''productionFiles'') ''nodes'';
          n = (if truthy pf then js_length pf else Num 0);
          gs = opt_prop (obj_get data ''lineItemGroups'') ''nodes''
      in if truthy gs then
           (case js_iter gs of
              Inl e \<Rightarrow> Inl e
            | Inr grps \<Rightarrow>
                (case count_groups grps (Num 0, Num 0) of
                   Inl e \<Rightarrow> Inl e
                 | Inr (li, im) \<Rightarrow>
                     Inr \<lparr>productionFiles = n, lineItemMockups = li, imprintMockups = im\<rparr>))
         else Inr \<lparr>productionFiles = n, lineItemMockups = Num 0, imprintMockups = Num 0\<rparr>)"

section \<open>Requests in sequence and in parallel\<close>

text \<open>
  \<^verbatim>\<open>await graphqlRequest(query, variables)\<close>: the caller waits until the call settles.
  The call takes the next number, and each of its attempts is entered in the request log.
\<close>

definition stamp :: "request \<Rightarrow> outcome \<Rightarrow> (nat \<times> request) list" where
  "stamp req out = map (\<lambda>t. (t, req)) (sent out)"

definition graphqlRequest :: "config \<Rightarrow> remote \<Rightarrow> request \<Rightarrow> world \<Rightarrow> (error + jsval) \<times> world" where
  "graphqlRequest cfg remote req w =
     (let out = graphqlRequest_at cfg (remote (calls w) req) (clock w)
      in (result out,
          w\<lparr>clock := settled out, calls := calls w + 1,
            requests := requests w @ stamp req out\<rparr>))"

text \<open>
  \<^verbatim>\<open>Promise.all\<close>: it rejects with the first rejection in time (the earlier promise
  of the array when two reject at the same millisecond) and resolves, once the last
  promise has, with all the values. The promises that are still pending when it rejects
  run on: their requests are sent all the same.
\<close>

fun rejections :: "outcome list \<Rightarrow> (nat \<times> error) list" where
  "rejections [] = []"
| "rejections (out # outs) =
     (case result out of
        Inl e \<Rightarrow> (settled out, e) # rejections outs
      | Inr v \<Rightarrow> rejections outs)"

fun fulfilled :: "outcome list \<Rightarrow> jsval list" where
  "fulfilled [] = []"
| "fulfilled (out # outs) =
     (case result out of
        Inl e \<Rightarrow> fulfilled outs
      | Inr v \<Rightarrow> v # fulfilled outs)"

fun earliest :: "nat \<times> error \<Rightarrow> (nat \<times> error) list \<Rightarrow> nat \<times> error" where
  "earliest r [] = r"
| "earliest r (x # xs) = earliest (if fst x < fst r then x else r) xs"

definition promise_all :: "outcome list \<Rightarrow> (error + jsval list) \<times> nat" where
  "promise_all outs =
     (case rejections outs of
        [] \<Rightarrow> (Inr (fulfilled outs), fold max (map settled outs) 0)
      | r # rs \<Rightarrow> (Inl (snd (earliest r rs)), fst (earliest r rs)))"

text \<open>\<^verbatim>\<open>const [a, b, c] = xs\<close>: a missing element is \<^verbatim>\<open>undefined\<close>.\<close>

definition js_nth :: "jsval list \<Rightarrow> nat \<Rightarrow> jsval" where
  "js_nth xs i = (if i < length xs then xs ! i else None)"

definition nullish :: "jsval \<Rightarrow> bool" where
  "nullish v = (v = None \<or> v = Some JNull)"

text \<open>
  The merge of \<^verbatim>\<open>fetchOrderData\<close> (lines 364 to 377): the members of the header,
  then \<^verbatim>\<open>lineItemGroups\<close> of the second document and the five collections of the
  third. Reading a member off a \<^verbatim>\<open>null\<close> or \<^verbatim>\<open>undefined\<close> document throws; spreading
  one does not.
\<close>

definition merge_order :: "order_type \<Rightarrow> jsval \<Rightarrow> jsval \<Rightarrow> jsval \<Rightarrow> error + obj" where
  "merge_order ty headerData lineItemsData filesData =
     (case get_prop headerData (type_name ty) of
        Inl e \<Rightarrow> Inl e
      | Inr header \<Rightarrow>
     (case get_prop lineItemsData (type_name ty) of
        Inl e \<Rightarrow> Inl e
      | Inr lineItems \<Rightarrow>
     (case get_prop filesData (type_name ty) of
        Inl e \<Rightarrow> Inl e
      | Inr files \<Rightarrow>
          if nullish lineItems \<or> nullish files then Inl TypeError
          else Inr
            (obj_set ''transactions'' (opt_prop files ''transactions'')
            (obj_set ''tasks'' (opt_prop files ''tasks'')
            (obj_set ''expenses'' (opt_prop files ''expenses'')
            (obj_set ''fees'' (opt_prop files ''fees'')
            (obj_set ''productionFiles'' (opt_prop files ''productionFiles'')
            (obj_set ''lineItemGroups'' (opt_prop lineItems ''lineItemGroups'')
            (obj_spread (spread header) []))))))))))"

text \<open>
  The three promises handed to \<^verbatim>\<open>Promise.all\<close> (lines 355 to 361), each a call of
  \<^verbatim>\<open>graphqlRequest\<close> with \<^verbatim>\<open>{ id: printavoId }\<close>. The calls are numbered in the order
  of the array. The header request starts at once, the line item request after
  \<^verbatim>\<open>RATE_LIMIT_DELAY\<close>, the files request after twice that; each runs its own retry
  loop, independent of the other two.
\<close>

definition header_request :: "order_type \<Rightarrow> jsval \<Rightarrow> request" where
  "header_request ty printavoId = (GET_ORDER_HEADER ty, [(''id'', printavoId)])"

definition line_items_request :: "order_type \<Rightarrow> jsval \<Rightarrow> request" where
  "line_items_request ty printavoId = (GET_ORDER_LINE_ITEMS ty, [(''id'', printavoId)])"

definition files_request :: "order_type \<Rightarrow> jsval \<Rightarrow> request" where
  "files_request ty printavoId = (GET_ORDER_FILES_FINANCIAL ty, [(''id'', printavoId)])"

definition header_promise :: "config \<Rightarrow> remote \<Rightarrow> order_type \<Rightarrow> jsval \<Rightarrow> world \<Rightarrow> outcome" where
  "header_promise cfg remote ty printavoId w =
     graphqlRequest_at cfg (remote (calls w) (header_request ty printavoId)) (clock w)"

definition line_items_promise :: "config \<Rightarrow> remote \<Rightarrow> order_type \<Rightarrow> jsval \<Rightarrow> world \<Rightarrow> outcome" where
  "line_items_promise cfg remote ty printavoId w =
     graphqlRequest_at cfg (remote (calls w + 1) (line_items_request ty printavoId))
       (clock w + rate_limit_delay cfg)"

definition files_promise :: "config \<Rightarrow> remote \<Rightarrow> order_type \<Rightarrow> jsval \<Rightarrow> world \<Rightarrow> outcome" where
  "files_promise cfg remote ty printavoId w =
     graphqlRequest_at cfg (remote (calls w + 2) (files_request ty printavoId))
       (clock w + rate_limit_delay cfg * 2)"

text \<open>\<^verbatim>\<open>fetchOrderData\<close> (lines 352 to 378).\<close>

definition fetchOrderData ::
  "config \<Rightarrow> remote \<Rightarrow> order_type \<Rightarrow> jsval \<Rightarrow> world \<Rightarrow> (error + obj) \<times> world" where
  "fetchOrderData cfg remote ty printavoId w =
     (let o1 = header_promise cfg remote ty printavoId w;
          o2 = line_items_promise cfg remote ty printavoId w;
          o3 = files_promise cfg remote ty printavoId w;
          w1 = w\<lparr>calls := calls w + 3,
                 requests := requests w @ stamp (header_request ty printavoId) o1
                               @ stamp (line_items_request ty printavoId) o2
                               @ stamp (files_request ty printavoId) o3\<rparr>
      in case promise_all [o1, o2, o3] of
           (Inl e, t) \<Rightarrow> (Inl e, w1\<lparr>clock := t\<rparr>)
         | (Inr vs, t) \<Rightarrow>
             (merge_order ty (js_nth vs 0) (js_nth vs 1) (js_nth vs 2), w1\<lparr>clock := t\<rparr>))"

section \<open>Extracting the orders of one kind\<close>

text \<open>An entry of the id list: \<^verbatim>\<open>{ id: order.id, visualId: order.visualId }\<close>.\<close>

record order_ref =
  ref_id :: jsval
  visualId :: jsval

text \<open>The \<^verbatim>\<open>catch\<close> block of the loop body (lines 441 to 456).\<close>

definition catch_block ::
  "config \<Rightarrow> order_type \<Rightarrow> order_ref \<Rightarrow> error \<Rightarrow> nat \<Rightarrow> progress \<Rightarrow> world \<Rightarrow> nat \<times> progress \<times> world" where
  "catch_block cfg ty order e processed prog w =
     (let w1 = saveError \<lparr>e_type = ty, e_visualId = visualId order, e_printavoId = ref_id order,
                          e_error = e, e_retries = max_retries cfg, e_timestamp = 0\<rparr> w;
          (prog', w2) = saveProgress (prog\<lparr>errors := errors prog + 1\<rparr>) w1
      in (processed, prog', delay (rate_limit_delay cfg) w2))"

text \<open>
  \<^verbatim>\<open>{ extractedAt, type, printavoId, visualId, ...orderData }\<close> (lines 414 to 420): the
  members of the merged order come last and win.
\<close>

definition output_data :: "nat \<Rightarrow> order_type \<Rightarrow> order_ref \<Rightarrow> obj \<Rightarrow> obj" where
  "output_data now ty order orderData =
     obj_spread orderData
       (obj_set ''visualId'' (visualId order)
       (obj_set ''printavoId'' (ref_id order)
       (obj_set ''type'' (Some (JStr (type_name ty)))
       (obj_set ''extractedAt'' (Some (toISOString now)) []))))"

text \<open>
  Lines 425 to 429. \<^verbatim>\<open>(progress[`${type}sProcessed`] || 0) + 1\<close> is the counter plus
  one, the counter being a number.
\<close>

definition count_order :: "order_type \<Rightarrow> order_ref \<Rightarrow> file_counts \<Rightarrow> progress \<Rightarrow> progress" where
  "count_order ty order fileCounts prog =
     (let p1 = prog\<lparr>lastProcessedVisualId := visualId order\<rparr>;
          p2 = (if ty = Invoice then p1\<lparr>invoicesProcessed := invoicesProcessed p1 + 1\<rparr>
                else p1\<lparr>quotesProcessed := quotesProcessed p1 + 1\<rparr>)
      in p2\<lparr>totalProductionFiles := js_add (totalProductionFiles p2) (productionFiles fileCounts),
            totalLineItemMockups := js_add (totalLineItemMockups p2) (lineItemMockups fileCounts),
            totalImprintMockups := js_add (totalImprintMockups p2) (imprintMockups fileCounts)\<rparr>)"

text \<open>
  The body of the loop for an order that is not on disk (lines 405 to 456). The test
  \<^verbatim>\<open>if (!orderData)\<close> never fires, \<^verbatim>\<open>fetchOrderData\<close> returning an object whenever it
  returns. Everything that throws in the \<^verbatim>\<open>try\<close> block does so before \<^verbatim>\<open>saveOrder\<close>.
\<close>

definition extract_order ::
  "config \<Rightarrow> remote \<Rightarrow> order_type \<Rightarrow> order_ref \<Rightarrow> nat \<Rightarrow> progress \<Rightarrow> world \<Rightarrow> nat \<times> progress \<times> world" where
  "extract_order cfg remote ty order processed prog w =
     (case fetchOrderData cfg remote ty (ref_id order) w of
        (Inl e, w1) \<Rightarrow> catch_block cfg ty order e processed prog w1
      | (Inr orderData, w1) \<Rightarrow>
          (case countFiles orderData of
             Inl e \<Rightarrow> catch_block cfg ty order e processed prog w1
           | Inr fileCounts \<Rightarrow>
               (let w2 = saveOrder ty (visualId order)
                           (output_data (clock w1) ty order orderData) w1;
                    prog1 = count_order ty order fileCounts prog;
                    (prog2, w3) = (if (processed + 1) mod 10 = 0 then saveProgress prog1 w2
                                   else (prog1, w2))
                in (processed + 1, prog2, delay (rate_limit_delay cfg) w3))))"

text \<open>The loop of \<^verbatim>\<open>extractOrders\<close> (lines 393 to 457).\<close>

fun extract_loop ::
  "config \<Rightarrow> remote \<Rightarrow> order_type \<Rightarrow> order_ref list \<Rightarrow> nat \<Rightarrow> nat \<Rightarrow> progress \<Rightarrow> world
     \<Rightarrow> nat \<times> progress \<times> world" where
  "extract_loop cfg remote ty [] processed skipped prog w = (processed, prog, w)"
| "extract_loop cfg remote ty (order # rest) processed skipped prog w =
     (if orderExists w ty (visualId order)
      then extract_loop cfg remote ty rest processed (skipped + 1) prog w
      else (case extract_order cfg remote ty order processed prog w of
              (processed', prog', w') \<Rightarrow>
                extract_loop cfg remote ty rest processed' skipped prog' w'))"

definition extractOrders ::
  "config \<Rightarrow> remote \<Rightarrow> order_type \<Rightarrow> order_ref list \<Rightarrow> progress \<Rightarrow> world \<Rightarrow> nat \<times> progress \<times> world" where
  "extractOrders cfg remote ty orderIds prog w = extract_loop cfg remote ty orderIds 0 0 prog w"

section \<open>Walking the catalog\<close>

fun list_query :: "order_type \<Rightarrow> query" where
  "list_query Invoice = LIST_INVOICES_QUERY"
| "list_query Quote = LIST_QUOTES_QUERY"

fun dataKey :: "order_type \<Rightarrow> string" where
  "dataKey Invoice = ''invoices''"
| "dataKey Quote = ''quotes''"

text \<open>
  \<^verbatim>\<open>orderIds.push({ id: order.id, visualId: order.visualId })\<close> for each node
  (lines 333 to 335); a \<^verbatim>\<open>null\<close> node throws.
\<close>

fun push_nodes :: "jsval list \<Rightarrow> error + order_ref list" where
  "push_nodes [] = Inr []"
| "push_nodes (order # rest) =
     (if nullish order then Inl TypeError
      else (case push_nodes rest of
              Inl e \<Rightarrow> Inl e
            | Inr refs \<Rightarrow>
                Inr (\<lparr>ref_id = opt_prop order ''id'', visualId = opt_prop order ''visualId''\<rparr> # refs)))"

text \<open>
  What one iteration reads off a page (lines 331 to 338): the ids of its nodes,
  \<^verbatim>\<open>pageInfo.hasNextPage\<close> and \<^verbatim>\<open>pageInfo.endCursor\<close>.
\<close>

definition read_page :: "order_type \<Rightarrow> jsval \<Rightarrow> error + order_ref list \<times> jsval \<times> jsval" where
  "read_page ty data =
     (case get_prop data (dataKey ty) of
        Inl e \<Rightarrow> Inl e
      | Inr orders \<Rightarrow>
     (case get_prop orders ''nodes'' of
        Inl e \<Rightarrow> Inl e
      | Inr nodes \<Rightarrow>
     (case js_iter nodes of
        Inl e \<Rightarrow> Inl e
      | Inr xs \<Rightarrow>
     (case push_nodes xs of
        Inl e \<Rightarrow> Inl e
      | Inr refs \<Rightarrow>
     (case get_prop (opt_prop orders ''pageInfo'') ''hasNextPage'' of
        Inl e \<Rightarrow> Inl e
      | Inr hasMore \<Rightarrow>
          Inr (refs, hasMore, opt_prop (opt_prop orders ''pageInfo'') ''endCursor''))))))"

text \<open>
  The \<^verbatim>\<open>while (hasMore)\<close> loop of \<^verbatim>\<open>fetchAllOrderIds\<close> (lines 329 to 346). The remote
  decides when it ends, so it need not: \<open>None\<close> is a walk that never returns.
\<close>

partial_function (option) fetch_pages ::
  "config \<Rightarrow> remote \<Rightarrow> order_type \<Rightarrow> order_ref list \<Rightarrow> jsval \<Rightarrow> nat \<Rightarrow> world
     \<Rightarrow> ((error + order_ref list) \<times> world) option" where
  "fetch_pages cfg remote ty orderIds cursor page w =
     (case graphqlRequest cfg remote (list_query ty, [(''cursor'', cursor)]) w of
        (Inl e, w1) \<Rightarrow> Some (Inl e, w1)
      | (Inr data, w1) \<Rightarrow>
          (case read_page ty data of
             Inl e \<Rightarrow> Some (Inl e, w1)
           | Inr (refs, hasMore, cursor') \<Rightarrow>
               if truthy hasMore
               then fetch_pages cfg remote ty (orderIds @ refs) cursor' (page + 1)
                      (delay (rate_limit_delay cfg) w1)
               else Some (Inr (orderIds @ refs), delay (rate_limit_delay cfg) w1)))"

declare fetch_pages.simps [code]

text \<open>\<^verbatim>\<open>fetchAllOrderIds\<close> (lines 318 to 350): the first cursor is \<^verbatim>\<open>null\<close>.\<close>

definition fetchAllOrderIds ::
  "config \<Rightarrow> remote \<Rightarrow> order_type \<Rightarrow> world \<Rightarrow> ((error + order_ref list) \<times> world) option" where
  "fetchAllOrderIds cfg remote ty w = fetch_pages cfg remote ty [] (Some JNull) 0 w"

section \<open>The run\<close>

text \<open>
  One \<^verbatim>\<open>if\<close> block of \<^verbatim>\<open>main\<close> (lines 484 to 490 and 492 to 498): list the ids, extract
  them, set the next phase and save. \<open>Inl\<close> is an error thrown to the \<^verbatim>\<open>catch\<close> of
  \<^verbatim>\<open>main\<close>; only the listing can throw it.
\<close>

definition run_phase ::
  "config \<Rightarrow> remote \<Rightarrow> order_type \<Rightarrow> string \<Rightarrow> progress \<Rightarrow> world
     \<Rightarrow> ((error + progress) \<times> world) option" where
  "run_phase cfg remote ty next prog w =
     (case fetchAllOrderIds cfg remote ty w of
        None \<Rightarrow> None
      | Some (Inl e, w1) \<Rightarrow> Some (Inl e, w1)
      | Some (Inr orderIds, w1) \<Rightarrow>
          (case extractOrders cfg remote ty orderIds prog w1 of
             (n, prog1, w2) \<Rightarrow>
               (case saveProgress (prog1\<lparr>phase := Some next\<rparr>) w2 of
                  (prog2, w3) \<Rightarrow> Some (Inr prog2, w3))))"

text \<open>Lines 500 to 515: the summary written once both blocks are through.\<close>

definition write_summary :: "progress \<Rightarrow> world \<Rightarrow> world" where
  "write_summary prog w =
     w\<lparr>summary_file := Some
         \<lparr>completedAt = clock w,
          invoicesExtracted = invoicesProcessed prog,
          quotesExtracted = quotesProcessed prog,
          totalOrders = invoicesProcessed prog + quotesProcessed prog,
          s_totalProductionFiles = to_file_num (totalProductionFiles prog),
          s_totalLineItemMockups = to_file_num (totalLineItemMockups prog),
          s_totalImprintMockups = to_file_num (totalImprintMockups prog),
          totalFiles = to_file_num (js_add (js_add (totalProductionFiles prog)
                         (totalLineItemMockups prog)) (totalImprintMockups prog)),
          s_errors = errors prog\<rparr>\<rparr>"

text \<open>
  The access check of \<^verbatim>\<open>main\<close> (lines 473 to 479): the request, then
  \<^verbatim>\<open>testData.invoices.totalNodes\<close> read inside the same \<^verbatim>\<open>try\<close>.
\<close>

definition verify_access :: "config \<Rightarrow> remote \<Rightarrow> world \<Rightarrow> (error + jsval) \<times> world" where
  "verify_access cfg remote w =
     (case graphqlRequest cfg remote (VERIFY_ACCESS_QUERY, []) w of
        (Inl e, w1) \<Rightarrow> (Inl e, w1)
      | (Inr testData, w1) \<Rightarrow>
          (case get_prop testData ''invoices'' of
             Inl e \<Rightarrow> (Inl e, w1)
           | Inr invoices \<Rightarrow> (get_prop invoices ''totalNodes'', w1)))"

text \<open>
  \<^verbatim>\<open>main\<close> (lines 463 to 532) after the configuration has been accepted: the exit
  status and the final state, or \<open>None\<close> when a listing never ends. Status 1 is
  \<^verbatim>\<open>process.exit(1)\<close>, status 0 the end of the script.
\<close>

definition main :: "config \<Rightarrow> remote \<Rightarrow> world \<Rightarrow> (nat \<times> world) option" where
  "main cfg remote w =
     (let prog = loadProgress w
      in case verify_access cfg remote w of
           (Inl e, w1) \<Rightarrow> Some (1, w1)
         | (Inr v, w1) \<Rightarrow>
             (case (if phase prog = Some ''invoices'' \<or> not_str (phase prog)
                    then run_phase cfg remote Invoice ''quotes'' prog w1
                    else Some (Inr prog, w1)) of
                None \<Rightarrow> None
              | Some (Inl e, w2) \<Rightarrow> Some (1, snd (saveProgress prog w2))
              | Some (Inr prog1, w2) \<Rightarrow>
                  (case (if phase prog1 = Some ''quotes''
                         then run_phase cfg remote Quote ''complete'' prog1 w2
                         else Some (Inr prog1, w2)) of
                     None \<Rightarrow> None
                   | Some (Inl e, w3) \<Rightarrow> Some (1, snd (saveProgress prog1 w3))
                   | Some (Inr prog2, w3) \<Rightarrow> Some (0, write_summary prog2 w3))))"

text \<open>
  The script from its first line: a rejected configuration exits with status 1 and
  leaves the state as it found it.
\<close>

definition extract_all_data :: "config \<Rightarrow> remote \<Rightarrow> world \<Rightarrow> (nat \<times> world) option" where
  "extract_all_data cfg remote w = (if config_rejected cfg then Some (1, w) else main cfg remote w)"

section \<open>Measures and environments the properties are stated with\<close>

text \<open>A data directory with nothing in it, at time 0, before any call.\<close>

definition fresh_world :: world where
  "fresh_world =
     \<lparr>clock = 0, calls = 0, requests = [], order_files = Map.empty, progress_file = Absent,
      checkpoints = [], errors_file = Absent, summary_file = None\<rparr>"

text \<open>The configuration of \<^verbatim>\<open>config.example.js\<close> with credentials filled in.\<close>

definition example_config :: config where
  "example_config =
     \<lparr>PRINTAVO_EMAIL = Some ''owner@shop.example'', PRINTAVO_TOKEN = Some ''s3cr3t'',
      RATE_LIMIT_DELAY = Some 650, RETRY_DELAY = Some 5000, MAX_RETRIES = Some 3\<rparr>"



text \<open>
  The position of a phase in the order invoices, quotes, complete. A missing or empty
  phase is read as invoices by \<^verbatim>\<open>main\<close>; any other value starts neither block, as
  complete does.
\<close>

definition phase_rank :: "string option \<Rightarrow> nat" where
  "phase_rank ph =
     (if ph = Some ''invoices'' \<or> not_str ph then 0 else if ph = Some ''quotes'' then 1 else 2)"


text \<open>
  A sub-query whose every attempt fails: each of the attempts the retry loop can make
  throws in the \<^verbatim>\<open>try\<close> block.
\<close>

definition always_fails :: "config \<Rightarrow> (nat \<Rightarrow> nat \<times> exchange) \<Rightarrow> bool" where
  "always_fails cfg script = (\<forall>a \<in> {1..max_retries cfg}. isl (read_result (snd (script a))))"

text \<open>
  A remote that answers every exchange of every call the same way, after \<open>latency\<close>
  milliseconds.
\<close>

definition constant_remote :: "nat \<Rightarrow> exchange \<Rightarrow> remote" where
  "constant_remote latency ex = (\<lambda>k req attempt. (latency, ex))"

text \<open>
  A remote with one order on file, for trying the script out: whatever id is asked for
  it answers, after 100 milliseconds, with the header of order \<^verbatim>\<open>A\<close> (number 103), with
  one line item group holding an imprint with one mockup and a line item with two, and
  with one production file. \<open>lid\<close> is the id its line item document carries.
\<close>

definition sample_document :: "string \<Rightarrow> query \<Rightarrow> json" where
  "sample_document lid q =
     (case q of
        GET_ORDER_HEADER ty \<Rightarrow>
          JObj [(''id'', JStr ''A''), (''visualId'', JStr ''103''), (''nickname'', JStr ''Shirts'')]
      | GET_ORDER_LINE_ITEMS ty \<Rightarrow>
          JObj [(''id'', JStr lid),
                (''lineItemGroups'', JObj [(''nodes'', JArr
                   [JObj [(''id'', JStr ''g1''),
                          (''imprints'', JObj [(''nodes'', JArr
                             [JObj [(''id'', JStr ''i1''),
                                    (''mockups'', JObj [(''nodes'', JArr [JObj [(''id'', JStr ''m1'')]])])]])]),
                          (''lineItems'', JObj [(''nodes'', JArr
                             [JObj [(''id'', JStr ''l1''),
                                    (''mockups'', JObj [(''nodes'', JArr
                                       [JObj [(''id'', JStr ''m2'')], JObj [(''id'', JStr ''m3'')]])])]])])]])])]
      | GET_ORDER_FILES_FINANCIAL ty \<Rightarrow>
          JObj [(''id'', JStr ''A''),
                (''productionFiles'', JObj [(''nodes'', JArr [JObj [(''id'', JStr ''f1'')]])]),
                (''fees'', JObj [(''nodes'', JArr [])])]
      | _ \<Rightarrow> JObj [(''totalNodes'', JNum 1)])"

definition sample_answer :: "string \<Rightarrow> query \<Rightarrow> exchange" where
  "sample_answer lid q =
     Response 200 ''OK''
       (Json (JObj [(''data'', JObj [(''invoice'', sample_document lid q),
                                    (''invoices'', sample_document lid q)])]))"

definition sample_remote :: "string \<Rightarrow> remote" where
  "sample_remote lid = (\<lambda>k (q, vars) attempt. (100, sample_answer lid q))"


text \<open>The catalog entry of the sample order.\<close>

definition sample_order :: order_ref where
  "sample_order = \<lparr>ref_id = Some (JStr ''A''), visualId = Some (JStr ''103'')\<rparr>"

text \<open>
  The answer of a GraphQL server that cannot resolve the order asked for: status 200,
  the order member of \<^verbatim>\<open>data\<close> set to \<^verbatim>\<open>null\<close>, and the reason under \<^verbatim>\<open>errors\<close>.
\<close>

definition not_found_answer :: "order_type \<Rightarrow> exchange" where
  "not_found_answer ty =
     Response 200 ''OK''
       (Json (JObj [(''data'', JObj [(type_name ty, JNull)]),
                    (''errors'', JArr [JObj [(''message'', JStr ''Not found'')]])]))"

text \<open>
  The sample remote with one of the sub-queries of an invoice unresolved: the query
  \<open>missing\<close> gets the answer above, every other query the sample answer.
\<close>

definition partial_remote :: "query \<Rightarrow> remote" where
  "partial_remote missing =
     (\<lambda>k (q, vars) attempt.
        (100, if q = missing then not_found_answer Invoice else sample_answer ''A'' q))"

text \<open>The names of the members of a stored record, in order; none when there is no record.\<close>

fun member_names :: "json option \<Rightarrow> string list" where
  "member_names (Some (JObj fs)) = map fst fs"
| "member_names v = []"

text \<open>
  A catalog as a remote serves it: pages in order, each with the cursor token that
  stands for its end and with the \<open>(id, visualId)\<close> pairs of its nodes.
\<close>

type_synonym catalog_page = "string \<times> (string \<times> string) list"

definition node_json :: "string \<times> string \<Rightarrow> json" where
  "node_json n = JObj [(''id'', JStr (fst n)), (''visualId'', JStr (snd n))]"

definition order_ref_of :: "string \<times> string \<Rightarrow> order_ref" where
  "order_ref_of n = \<lparr>ref_id = Some (JStr (fst n)), visualId = Some (JStr (snd n))\<rparr>"

text \<open>The pages that follow the page whose token is \<open>c\<close>.\<close>

fun pages_after :: "string \<Rightarrow> catalog_page list \<Rightarrow> catalog_page list" where
  "pages_after c [] = []"
| "pages_after c (p # ps) = (if fst p = c then ps else pages_after c ps)"

text \<open>The pages still to come for a request: all of them when it carries no cursor.\<close>

definition pages_from :: "jsval \<Rightarrow> catalog_page list \<Rightarrow> catalog_page list" where
  "pages_from cursor pages =
     (case cursor of
        Some (JStr c) \<Rightarrow> pages_after c pages
      | _ \<Rightarrow> pages)"

text \<open>
  The connection object for the first of the pages still to come: its nodes, whether
  another page follows, and its token. An empty catalog is one page without nodes.
\<close>

definition page_json :: "catalog_page list \<Rightarrow> json" where
  "page_json ps =
     (case ps of
        [] \<Rightarrow>
          JObj [(''nodes'', JArr []),
                (''pageInfo'', JObj [(''hasNextPage'', JBool False), (''endCursor'', JNull)])]
      | p # rest \<Rightarrow>
          JObj [(''nodes'', JArr (map node_json (snd p))),
                (''pageInfo'', JObj [(''hasNextPage'', JBool (rest \<noteq> [])),
                                   (''endCursor'', JStr (fst p))])])"

text \<open>
  A remote serves a catalog of one kind when every listing call, whatever its number
  and cursor, gets the page for that cursor on one of the attempts the retry loop makes,
  the attempts before it failing.
\<close>

definition serves :: "config \<Rightarrow> remote \<Rightarrow> order_type \<Rightarrow> catalog_page list \<Rightarrow> bool" where
  "serves cfg remote ty pages =
     (\<forall>k cursor. \<exists>n fs.
        1 \<le> n \<and> n \<le> max_retries cfg \<and>
        (\<forall>a. 1 \<le> a \<and> a < n \<longrightarrow>
           isl (read_result (snd (remote k (list_query ty, [(''cursor'', cursor)]) a)))) \<and>
        read_result (snd (remote k (list_query ty, [(''cursor'', cursor)]) n)) = Inr (Some (JObj fs)) \<and>
        map_of fs (dataKey ty) = Some (page_json (pages_from cursor pages)))"

text \<open>
  A remote for a whole run: it answers the access check, lists the invoices and the
  quotes of two catalogs, and answers every order query with the sample documents, each
  exchange taking \<open>latency\<close> milliseconds.
\<close>

definition shop_remote :: "nat \<Rightarrow> catalog_page list \<Rightarrow> catalog_page list \<Rightarrow> remote" where
  "shop_remote latency invoices quotes =
     (\<lambda>k (q, vars) attempt.
        (latency,
         Response 200 ''OK'' (Json (JObj [(''data'',
           (case q of
              LIST_INVOICES_QUERY \<Rightarrow>
                JObj [(''invoices'', page_json (pages_from (obj_get vars ''cursor'') invoices))]
            | LIST_QUOTES_QUERY \<Rightarrow>
                JObj [(''quotes'', page_json (pages_from (obj_get vars ''cursor'') quotes))]
            | VERIFY_ACCESS_QUERY \<Rightarrow> JObj [(''invoices'', JObj [(''totalNodes'', JNum 1)])]
            | GET_ORDER_HEADER ty \<Rightarrow> JObj [(type_name ty, sample_document ''A'' q)]
            | GET_ORDER_LINE_ITEMS ty \<Rightarrow> JObj [(type_name ty, sample_document ''A'' q)]
            | GET_ORDER_FILES_FINANCIAL ty \<Rightarrow> JObj [(type_name ty, sample_document ''A'' q)]))]))))"




section \<open>The retry loop\<close>

lemma max_retries_pos: "1 \<le> max_retries cfg"
  by (simp add: max_retries_def or_default_def split: option.splits)


lemma rate_limit_delay_pos: "0 < rate_limit_delay cfg"
  by (simp add: rate_limit_delay_def or_default_def split: option.splits)

lemma request_loop_retry:
  "attempt < retries \<Longrightarrow> script attempt = (latency, ex) \<Longrightarrow> read_result ex = Inl err \<Longrightarrow>
   request_loop cfg script retries attempt t =
     (request_loop cfg script retries (attempt + 1) (t + latency + retry_delay cfg * attempt))
       \<lparr>sent := t # sent (request_loop cfg script retries (attempt + 1) (t + latency + retry_delay cfg * attempt)),
        waits := retry_delay cfg * attempt #
                 waits (request_loop cfg script retries (attempt + 1) (t + latency + retry_delay cfg * attempt))\<rparr>"
  by (subst request_loop.simps) (simp add: Let_def)

lemma request_loop_give_up:
  "attempt = retries \<Longrightarrow> script attempt = (latency, ex) \<Longrightarrow> read_result ex = Inl err \<Longrightarrow>
   request_loop cfg script retries attempt t =
     \<lparr>result = Inl err, settled = t + latency, sent = [t], waits = []\<rparr>"
  by (subst request_loop.simps) simp

lemma request_loop_success:
  "attempt \<le> retries \<Longrightarrow> script attempt = (latency, ex) \<Longrightarrow> read_result ex = Inr data \<Longrightarrow>
   request_loop cfg script retries attempt t =
     \<lparr>result = Inr data, settled = t + latency, sent = [t], waits = []\<rparr>"
  by (subst request_loop.simps) simp

lemma request_loop_skip:
  "retries < attempt \<Longrightarrow>
   request_loop cfg script retries attempt t = \<lparr>result = Inr None, settled = t, sent = [], waits = []\<rparr>"
  by (subst request_loop.simps) simp

lemma request_loop_all_fail:
  "attempt \<le> retries \<Longrightarrow> \<forall>a. attempt \<le> a \<and> a \<le> retries \<longrightarrow> isl (read_result (snd (script a))) \<Longrightarrow>
   isl (result (request_loop cfg script retries attempt t)) \<and>
   result (request_loop cfg script retries attempt t) = read_result (snd (script retries)) \<and>
   length (sent (request_loop cfg script retries attempt t)) = Suc retries - attempt \<and>
   waits (request_loop cfg script retries attempt t) = map (\<lambda>a. retry_delay cfg * a) [attempt..<retries]"
proof (induction cfg script retries attempt t rule: request_loop.induct)
  case (1 cfg script retries attempt t)
  obtain latency ex where se: "script attempt = (latency, ex)" by (cases "script attempt")
  from 1(3) 1(2) have "isl (read_result (snd (script attempt)))" by simp
  then obtain err where err: "read_result ex = Inl err" using se by (cases "read_result ex") auto
  show ?case
  proof (cases "attempt < retries")
    case True
    have ih: "isl (result (request_loop cfg script retries (attempt + 1) (t + latency + retry_delay cfg * attempt))) \<and>
      result (request_loop cfg script retries (attempt + 1) (t + latency + retry_delay cfg * attempt)) = read_result (snd (script retries)) \<and>
      length (sent (request_loop cfg script retries (attempt + 1) (t + latency + retry_delay cfg * attempt))) = Suc retries - (attempt + 1) \<and>
      waits (request_loop cfg script retries (attempt + 1) (t + latency + retry_delay cfg * attempt)) = map (\<lambda>a. retry_delay cfg * a) [attempt + 1..<retries]"
      using 1(1)[OF 1(2) se[symmetric] err True refl] True 1(3) by simp
    from 1(3) 1(2) have last: "isl (read_result (snd (script retries)))" by simp
    show ?thesis
      using True ih last
      by (simp add: request_loop_retry[where script=script and attempt=attempt, OF True se err]
          upt_conv_Cons)
  next
    case False
    with 1(2) have eq: "attempt = retries" by simp
    have "request_loop cfg script retries attempt t =
            \<lparr>result = Inl err, settled = t + latency, sent = [t], waits = []\<rparr>"
      by (rule request_loop_give_up[where script=script, OF eq se err])
    then show ?thesis using eq se err by simp
  qed
qed

text \<open>Failures before the first success are retried whatever they are.\<close>

lemma request_loop_first_success:
  "attempt \<le> n \<Longrightarrow> n \<le> retries \<Longrightarrow>
   \<forall>a. attempt \<le> a \<and> a < n \<longrightarrow> isl (read_result (snd (script a))) \<Longrightarrow>
   read_result (snd (script n)) = Inr data \<Longrightarrow>
   result (request_loop cfg script retries attempt t) = Inr data \<and>
   length (sent (request_loop cfg script retries attempt t)) = Suc n - attempt"
proof (induction cfg script retries attempt t rule: request_loop.induct)
  case (1 cfg script retries attempt t)
  obtain latency ex where se: "script attempt = (latency, ex)" by (cases "script attempt")
  show ?case
  proof (cases "attempt = n")
    case True
    from 1(5) True se have ok: "read_result ex = Inr data" by simp
    from 1(3) True have le: "attempt \<le> retries" by simp
    have "request_loop cfg script retries attempt t =
            \<lparr>result = Inr data, settled = t + latency, sent = [t], waits = []\<rparr>"
      by (rule request_loop_success[where script=script, OF le se ok])
    then show ?thesis using True by simp
  next
    case False
    with 1(2) have lt: "attempt < n" by simp
    with 1(3) have lt': "attempt < retries" and le: "attempt \<le> retries" by simp_all
    from 1(4) lt have "isl (read_result (snd (script attempt)))" by simp
    then obtain err where err: "read_result ex = Inl err"
      using se by (cases "read_result ex") auto
    have ih: "result (request_loop cfg script retries (attempt + 1) (t + latency + retry_delay cfg * attempt)) = Inr data \<and>
       length (sent (request_loop cfg script retries (attempt + 1) (t + latency + retry_delay cfg * attempt))) = Suc n - (attempt + 1)"
      using 1(1)[OF le se[symmetric] err lt' refl] lt 1(3) 1(4) 1(5) by simp
    show ?thesis
      using lt ih
      by (simp add: request_loop_retry[where script=script and attempt=attempt, OF lt' se err])
  qed
qed

lemma request_loop_sent_hd:
  "attempt \<le> retries \<Longrightarrow>
   \<exists>ts. sent (request_loop cfg script retries attempt t) = t # ts"
proof -
  assume le: "attempt \<le> retries"
  obtain latency ex where se: "script attempt = (latency, ex)" by (cases "script attempt")
  show ?thesis
  proof (cases "read_result ex")
    case (Inr data)
    show ?thesis
      by (simp add: request_loop_success[where script=script, OF le se Inr])
  next
    case (Inl err)
    show ?thesis
    proof (cases "attempt < retries")
      case True
      show ?thesis
        by (simp add: request_loop_retry[where script=script and attempt=attempt, OF True se Inl])
    next
      case False
      with le have eq: "attempt = retries" by simp
      show ?thesis
        using request_loop_give_up[where script=script and cfg=cfg and t=t, OF eq se Inl] by simp
    qed
  qed
qed

text \<open>Between two attempts of one call lies at least the wait of the earlier attempt.\<close>

lemma request_loop_spacing:
  "Suc i < length (sent (request_loop cfg script retries attempt t)) \<Longrightarrow>
   sent (request_loop cfg script retries attempt t) ! i + retry_delay cfg * (attempt + i)
     \<le> sent (request_loop cfg script retries attempt t) ! Suc i"
proof (induction cfg script retries attempt t arbitrary: i rule: request_loop.induct)
  case (1 cfg script retries attempt t)
  obtain latency ex where se: "script attempt = (latency, ex)" by (cases "script attempt")
  show ?case
  proof (cases "attempt < retries \<and> isl (read_result ex)")
    case True
    then obtain err where err: "read_result ex = Inl err" and lt: "attempt < retries"
      by (cases "read_result ex") auto
    from lt have le: "attempt \<le> retries" by simp
    let ?rest = "request_loop cfg script retries (attempt + 1) (t + latency + retry_delay cfg * attempt)"
    have unf: "sent (request_loop cfg script retries attempt t) = t # sent ?rest"
      by (simp add: request_loop_retry[where script=script and attempt=attempt, OF lt se err])
    from lt have "attempt + 1 \<le> retries" by simp
    from request_loop_sent_hd[OF this, of cfg script "t + latency + retry_delay cfg * attempt"]
    obtain ts where ts: "sent ?rest = (t + latency + retry_delay cfg * attempt) # ts" by blast
    show ?thesis
    proof (cases i)
      case 0
      then show ?thesis using unf ts by simp
    next
      case (Suc j)
      with "1.prems" unf have "Suc j < length (sent ?rest)" by simp
      from "1.IH"[OF le se[symmetric] err lt refl this]
      show ?thesis using unf Suc by simp
    qed
  next
    case False
    have "length (sent (request_loop cfg script retries attempt t)) \<le> 1"
    proof (cases "attempt \<le> retries")
      case le: True
      show ?thesis
      proof (cases "read_result ex")
        case (Inr data)
        show ?thesis by (simp add: request_loop_success[where script=script, OF le se Inr])
      next
        case (Inl err)
        with False le have eq: "attempt = retries" by simp
        show ?thesis
          using request_loop_give_up[where script=script and cfg=cfg and t=t, OF eq se Inl] by simp
      qed
    next
      case False
      then show ?thesis by (simp add: request_loop_skip)
    qed
    with "1.prems" show ?thesis by simp
  qed
qed

section \<open>Facts about Promise.all\<close>

lemma rejections_empty: "rejections outs = [] \<longleftrightarrow> (\<forall>out \<in> set outs. \<not> isl (result out))"
  by (induction outs) (auto split: sum.splits)

lemma fulfilled_all:
  "\<forall>out \<in> set outs. \<not> isl (result out) \<Longrightarrow> fulfilled outs = map (\<lambda>out. projr (result out)) outs"
  by (induction outs) (auto split: sum.splits)

lemma promise_all_rejects:
  "\<exists>out \<in> set outs. isl (result out) \<Longrightarrow> isl (fst (promise_all outs))"
  using rejections_empty[of outs] by (auto simp: promise_all_def split: list.splits)

lemma promise_all_resolves:
  "fst (promise_all outs) = Inr vs \<Longrightarrow>
   (\<forall>out \<in> set outs. \<not> isl (result out)) \<and> vs = map (\<lambda>out. projr (result out)) outs"
  using rejections_empty[of outs] fulfilled_all[of outs]
  by (auto simp: promise_all_def split: list.splits)

section \<open>What each operation changes\<close>

lemma delay_frame [simp]:
  "clock (delay ms w) = clock w + ms"
  "calls (delay ms w) = calls w"
  "requests (delay ms w) = requests w"
  "order_files (delay ms w) = order_files w"
  "progress_file (delay ms w) = progress_file w"
  "checkpoints (delay ms w) = checkpoints w"
  "errors_file (delay ms w) = errors_file w"
  "summary_file (delay ms w) = summary_file w"
  by (simp_all add: delay_def)

lemma saveProgress_frame [simp]:
  "fst (saveProgress p w) = p\<lparr>lastUpdated := clock w\<rparr>"
  "clock (snd (saveProgress p w)) = clock w"
  "calls (snd (saveProgress p w)) = calls w"
  "requests (snd (saveProgress p w)) = requests w"
  "order_files (snd (saveProgress p w)) = order_files w"
  "progress_file (snd (saveProgress p w)) = Content (progress_on_file (p\<lparr>lastUpdated := clock w\<rparr>))"
  "checkpoints (snd (saveProgress p w)) = checkpoints w @ [progress_on_file (p\<lparr>lastUpdated := clock w\<rparr>)]"
  "errors_file (snd (saveProgress p w)) = errors_file w"
  "summary_file (snd (saveProgress p w)) = summary_file w"
  by (simp_all add: saveProgress_def Let_def)

lemma saveError_frame [simp]:
  "clock (saveError d w) = clock w"
  "calls (saveError d w) = calls w"
  "requests (saveError d w) = requests w"
  "order_files (saveError d w) = order_files w"
  "progress_file (saveError d w) = progress_file w"
  "checkpoints (saveError d w) = checkpoints w"
  "errors_file (saveError d w) = Content (loadErrors w @ [d\<lparr>e_timestamp := clock w\<rparr>])"
  "summary_file (saveError d w) = summary_file w"
  by (simp_all add: saveError_def)

lemma loadErrors_saveError [simp]:
  "loadErrors (saveError d w) = loadErrors w @ [d\<lparr>e_timestamp := clock w\<rparr>]"
  by (simp add: loadErrors_def)


lemma loadErrors_frame [simp]:
  "loadErrors (delay ms w) = loadErrors w"
  "loadErrors (snd (saveProgress p w)) = loadErrors w"
  by (simp_all add: loadErrors_def)

lemma saveOrder_frame [simp]:
  "clock (saveOrder ty v d w) = clock w"
  "calls (saveOrder ty v d w) = calls w"
  "requests (saveOrder ty v d w) = requests w"
  "order_files (saveOrder ty v d w) = (order_files w)(order_path ty v \<mapsto> stringify d)"
  "progress_file (saveOrder ty v d w) = progress_file w"
  "checkpoints (saveOrder ty v d w) = checkpoints w"
  "errors_file (saveOrder ty v d w) = errors_file w"
  "summary_file (saveOrder ty v d w) = summary_file w"
  by (simp_all add: saveOrder_def)

lemma graphqlRequest_frame [simp]:
  "calls (snd (graphqlRequest cfg remote req w)) = calls w + 1"
  "order_files (snd (graphqlRequest cfg remote req w)) = order_files w"
  "progress_file (snd (graphqlRequest cfg remote req w)) = progress_file w"
  "checkpoints (snd (graphqlRequest cfg remote req w)) = checkpoints w"
  "errors_file (snd (graphqlRequest cfg remote req w)) = errors_file w"
  "summary_file (snd (graphqlRequest cfg remote req w)) = summary_file w"
  by (simp_all add: graphqlRequest_def Let_def)

lemma fetchOrderData_frame [simp]:
  "calls (snd (fetchOrderData cfg remote ty pid w)) = calls w + 3"
  "order_files (snd (fetchOrderData cfg remote ty pid w)) = order_files w"
  "progress_file (snd (fetchOrderData cfg remote ty pid w)) = progress_file w"
  "checkpoints (snd (fetchOrderData cfg remote ty pid w)) = checkpoints w"
  "errors_file (snd (fetchOrderData cfg remote ty pid w)) = errors_file w"
  "summary_file (snd (fetchOrderData cfg remote ty pid w)) = summary_file w"
  by (simp_all add: fetchOrderData_def Let_def split: prod.splits sum.splits)

lemma loadErrors_frame' [simp]:
  "loadErrors (saveOrder ty v d w) = loadErrors w"
  "loadErrors (snd (graphqlRequest cfg remote req w)) = loadErrors w"
  "loadErrors (snd (fetchOrderData cfg remote ty pid w)) = loadErrors w"
  by (simp_all add: loadErrors_def)

lemma fetchOrderData_requests:
  "requests (snd (fetchOrderData cfg remote ty pid w)) =
     requests w @ stamp (header_request ty pid) (header_promise cfg remote ty pid w)
       @ stamp (line_items_request ty pid) (line_items_promise cfg remote ty pid w)
       @ stamp (files_request ty pid) (files_promise cfg remote ty pid w)"
  by (simp add: fetchOrderData_def Let_def split: prod.splits sum.splits)

text \<open>A merged order comes from three resolved promises.\<close>

lemma fetchOrderData_resolved:
  assumes "fst (fetchOrderData cfg remote ty pid w) = Inr orderData"
  shows "\<exists>headerData lineItemsData filesData.
           result (header_promise cfg remote ty pid w) = Inr headerData \<and>
           result (line_items_promise cfg remote ty pid w) = Inr lineItemsData \<and>
           result (files_promise cfg remote ty pid w) = Inr filesData \<and>
           merge_order ty headerData lineItemsData filesData = Inr orderData"
proof -
  let ?outs = "[header_promise cfg remote ty pid w, line_items_promise cfg remote ty pid w,
                files_promise cfg remote ty pid w]"
  obtain r t where pa: "promise_all ?outs = (r, t)" by (cases "promise_all ?outs")
  from assms pa obtain vs where r: "r = Inr vs"
    and m: "merge_order ty (js_nth vs 0) (js_nth vs 1) (js_nth vs 2) = Inr orderData"
    by (cases r) (auto simp: fetchOrderData_def Let_def)
  from pa r have "fst (promise_all ?outs) = Inr vs" by simp
  from promise_all_resolves[OF this]
  have ok: "\<forall>out \<in> set ?outs. \<not> isl (result out)"
    and vs: "vs = map (\<lambda>out. projr (result out)) ?outs" by blast+
  from ok obtain h l f where
    "result (header_promise cfg remote ty pid w) = Inr h"
    "result (line_items_promise cfg remote ty pid w) = Inr l"
    "result (files_promise cfg remote ty pid w) = Inr f"
    by (cases "result (header_promise cfg remote ty pid w)";
        cases "result (line_items_promise cfg remote ty pid w)";
        cases "result (files_promise cfg remote ty pid w)") auto
  with vs m show ?thesis by (auto simp: js_nth_def)
qed

lemma fetchOrderData_rejected:
  assumes "isl (result (header_promise cfg remote ty pid w)) \<or>
           isl (result (line_items_promise cfg remote ty pid w)) \<or>
           isl (result (files_promise cfg remote ty pid w))"
  shows "isl (fst (fetchOrderData cfg remote ty pid w))"
proof (cases "fst (fetchOrderData cfg remote ty pid w)")
  case (Inl e)
  then show ?thesis by simp
next
  case (Inr orderData)
  from fetchOrderData_resolved[OF this] assms show ?thesis by auto
qed

section \<open>One order\<close>


lemma catch_block_frame [simp]:
  "fst (catch_block cfg ty order e processed prog w) = processed"
  "order_files (snd (snd (catch_block cfg ty order e processed prog w))) = order_files w"
  "loadErrors (snd (snd (catch_block cfg ty order e processed prog w))) =
     loadErrors w @
       [\<lparr>e_type = ty, e_visualId = visualId order, e_printavoId = ref_id order,
         e_error = e, e_retries = max_retries cfg, e_timestamp = clock w\<rparr>]"
  "errors (fst (snd (catch_block cfg ty order e processed prog w))) = errors prog + 1"
  "phase (fst (snd (catch_block cfg ty order e processed prog w))) = phase prog"
  "summary_file (snd (snd (catch_block cfg ty order e processed prog w))) = summary_file w"
  "checkpoints (snd (snd (catch_block cfg ty order e processed prog w))) =
     checkpoints w @ [progress_on_file (fst (snd (catch_block cfg ty order e processed prog w)))]"
  "calls (snd (snd (catch_block cfg ty order e processed prog w))) = calls w"
  "requests (snd (snd (catch_block cfg ty order e processed prog w))) = requests w"
  by (simp_all add: catch_block_def Let_def case_prod_beta)

section \<open>Records are merged from three documents\<close>

text \<open>The order files after one order: untouched, or the one new record.\<close>

lemma extract_order_files:
  "order_files (snd (snd (extract_order cfg remote ty order processed prog w))) =
     (case fst (fetchOrderData cfg remote ty (ref_id order) w) of
        Inl e \<Rightarrow> order_files w
      | Inr orderData \<Rightarrow>
          (case countFiles orderData of
             Inl e \<Rightarrow> order_files w
           | Inr fileCounts \<Rightarrow>
               (order_files w)(order_path ty (visualId order) \<mapsto>
                  stringify (output_data (clock (snd (fetchOrderData cfg remote ty (ref_id order) w)))
                               ty order orderData))))"
proof -
  obtain r w1 where f: "fetchOrderData cfg remote ty (ref_id order) w = (r, w1)"
    by (cases "fetchOrderData cfg remote ty (ref_id order) w")
  have w1: "order_files w1 = order_files w"
    using fetchOrderData_frame(2)[of cfg remote ty "ref_id order" w] f by simp
  show ?thesis
    using w1 by (simp add: extract_order_def f Let_def case_prod_beta split: sum.splits)
qed

text \<open>
  Processing one order writes an order file only when all three promises of
  \<^verbatim>\<open>fetchOrderData\<close> (header, line items, files and financial) resolved: if any of them
  rejected, which is what a sub-query does once its retries are used up, the order files
  are unchanged; and if they changed, the one file written is the record merged from
  what the three promises resolved with.
\<close>

lemma write_needs_three_resolved_promises:
  assumes "extract_order cfg remote ty order processed prog w = (n, prog', w')"
  shows "(isl (result (header_promise cfg remote ty (ref_id order) w)) \<or>
          isl (result (line_items_promise cfg remote ty (ref_id order) w)) \<or>
          isl (result (files_promise cfg remote ty (ref_id order) w))
            \<longrightarrow> order_files w' = order_files w) \<and>
         (order_files w' \<noteq> order_files w \<longrightarrow>
            (\<exists>headerData lineItemsData filesData orderData t.
               result (header_promise cfg remote ty (ref_id order) w) = Inr headerData \<and>
               result (line_items_promise cfg remote ty (ref_id order) w) = Inr lineItemsData \<and>
               result (files_promise cfg remote ty (ref_id order) w) = Inr filesData \<and>
               merge_order ty headerData lineItemsData filesData = Inr orderData \<and>
               order_files w' =
                 (order_files w)(order_path ty (visualId order) \<mapsto>
                    stringify (output_data t ty order orderData))))"
proof -
  let ?f = "fetchOrderData cfg remote ty (ref_id order) w"
  from assms have w': "w' = snd (snd (extract_order cfg remote ty order processed prog w))"
    by simp
  have files: "order_files w' =
     (case fst ?f of
        Inl e \<Rightarrow> order_files w
      | Inr orderData \<Rightarrow>
          (case countFiles orderData of
             Inl e \<Rightarrow> order_files w
           | Inr fileCounts \<Rightarrow>
               (order_files w)(order_path ty (visualId order) \<mapsto>
                  stringify (output_data (clock (snd ?f)) ty order orderData))))"
    unfolding w' by (rule extract_order_files)
  have a: "order_files w' = order_files w"
    if "isl (result (header_promise cfg remote ty (ref_id order) w)) \<or>
        isl (result (line_items_promise cfg remote ty (ref_id order) w)) \<or>
        isl (result (files_promise cfg remote ty (ref_id order) w))"
  proof -
    from fetchOrderData_rejected[OF that] obtain e where "fst ?f = Inl e"
      by (cases "fst ?f") auto
    with files show ?thesis by simp
  qed
  have b: "\<exists>headerData lineItemsData filesData orderData t.
               result (header_promise cfg remote ty (ref_id order) w) = Inr headerData \<and>
               result (line_items_promise cfg remote ty (ref_id order) w) = Inr lineItemsData \<and>
               result (files_promise cfg remote ty (ref_id order) w) = Inr filesData \<and>
               merge_order ty headerData lineItemsData filesData = Inr orderData \<and>
               order_files w' =
                 (order_files w)(order_path ty (visualId order) \<mapsto>
                    stringify (output_data t ty order orderData))"
    if changed: "order_files w' \<noteq> order_files w"
  proof (cases "fst ?f")
    case (Inl e)
    with files changed show ?thesis by simp
  next
    case (Inr orderData)
    from fetchOrderData_resolved[OF Inr] obtain h l f where
      docs: "result (header_promise cfg remote ty (ref_id order) w) = Inr h"
        "result (line_items_promise cfg remote ty (ref_id order) w) = Inr l"
        "result (files_promise cfg remote ty (ref_id order) w) = Inr f"
        "merge_order ty h l f = Inr orderData" by blast
    from files changed Inr have
      "order_files w' = (order_files w)(order_path ty (visualId order) \<mapsto>
          stringify (output_data (clock (snd ?f)) ty order orderData))"
      by (cases "countFiles orderData") auto
    with docs show ?thesis by blast
  qed
  from a b show ?thesis by blast
qed


lemma write_needs_three_resolved_promises_example:
  "\<exists>headerData lineItemsData filesData orderData t.
     result (header_promise example_config (sample_remote ''A'') Invoice (ref_id sample_order)
               fresh_world) = Inr headerData \<and>
     result (line_items_promise example_config (sample_remote ''A'') Invoice (ref_id sample_order)
               fresh_world) = Inr lineItemsData \<and>
     result (files_promise example_config (sample_remote ''A'') Invoice (ref_id sample_order)
               fresh_world) = Inr filesData \<and>
     merge_order Invoice headerData lineItemsData filesData = Inr orderData \<and>
     order_files (snd (snd (extract_order example_config (sample_remote ''A'') Invoice sample_order 0
                              (initial_progress 0) fresh_world))) =
       (order_files fresh_world)(order_path Invoice (visualId sample_order) \<mapsto>
          stringify (output_data t Invoice sample_order orderData))"
proof -
  let ?r = "extract_order example_config (sample_remote ''A'') Invoice sample_order 0
              (initial_progress 0) fresh_world"
  have run: "?r = (fst ?r, fst (snd ?r), snd (snd ?r))" by simp
  have "order_files (snd (snd ?r)) ''invoices/103.json'' \<noteq> None" by code_simp
  moreover have "order_files fresh_world ''invoices/103.json'' = None"
    by (simp add: fresh_world_def)
  ultimately have changed: "order_files (snd (snd ?r)) \<noteq> order_files fresh_world"
    by metis
  from write_needs_three_resolved_promises [OF run] changed show ?thesis by blast
qed

text \<open>
  C1. A promise that resolved need not have brought a document. The test of
  \<^verbatim>\<open>graphqlRequest\<close> (line 299) throws for \<^verbatim>\<open>errors\<close> only when \<^verbatim>\<open>data\<close> is missing, so the
  answer \<^verbatim>\<open>{"data": {"invoice": null}, "errors": [...]}\<close> resolves with
  \<^verbatim>\<open>{invoice: null}\<close>. When it is the header query that is answered so, \<^verbatim>\<open>...header\<close>
  (line 370) spreads \<^verbatim>\<open>null\<close> into nothing, the test \<^verbatim>\<open>if (!orderData)\<close> (line 408) sees
  an object, and the order is counted as processed and its file written from two documents
  only: it has the members of the envelope, of the line item document and of the files
  document, and neither \<^verbatim>\<open>id\<close> nor \<^verbatim>\<open>nickname\<close> of the header, which the record of the
  same order has when all three documents arrive. No entry goes to the error file. The same
  answer to the line item query or to the files query throws a TypeError in the merge
  (lines 371 and 372): no file is written and the order goes to the error file.
\<close>

theorem null_header_is_persisted:
  "read_result (not_found_answer Invoice) = Inr (Some (JObj [(''invoice'', JNull)])) \<and>
   result (header_promise example_config (partial_remote (GET_ORDER_HEADER Invoice)) Invoice
             (ref_id sample_order) fresh_world) = Inr (Some (JObj [(''invoice'', JNull)])) \<and>
   member_names (order_files (snd (snd (extract_order example_config
       (partial_remote (GET_ORDER_HEADER Invoice)) Invoice sample_order 0 (initial_progress 0)
       fresh_world))) ''invoices/103.json'') =
     [''extractedAt'', ''type'', ''printavoId'', ''visualId'',
      ''lineItemGroups'', ''productionFiles'', ''fees''] \<and>
   loadErrors (snd (snd (extract_order example_config
       (partial_remote (GET_ORDER_HEADER Invoice)) Invoice sample_order 0 (initial_progress 0)
       fresh_world))) = [] \<and>
   invoicesProcessed (fst (snd (extract_order example_config
       (partial_remote (GET_ORDER_HEADER Invoice)) Invoice sample_order 0 (initial_progress 0)
       fresh_world))) = 1 \<and>
   errors (fst (snd (extract_order example_config
       (partial_remote (GET_ORDER_HEADER Invoice)) Invoice sample_order 0 (initial_progress 0)
       fresh_world))) = 0 \<and>
   member_names (order_files (snd (snd (extract_order example_config
       (sample_remote ''A'') Invoice sample_order 0 (initial_progress 0)
       fresh_world))) ''invoices/103.json'') =
     [''extractedAt'', ''type'', ''printavoId'', ''visualId'', ''id'', ''nickname'',
      ''lineItemGroups'', ''productionFiles'', ''fees''] \<and>
   order_files (snd (snd (extract_order example_config
       (partial_remote (GET_ORDER_LINE_ITEMS Invoice)) Invoice sample_order 0 (initial_progress 0)
       fresh_world))) ''invoices/103.json'' = None \<and>
   map e_error (loadErrors (snd (snd (extract_order example_config
       (partial_remote (GET_ORDER_LINE_ITEMS Invoice)) Invoice sample_order 0 (initial_progress 0)
       fresh_world)))) = [TypeError] \<and>
   order_files (snd (snd (extract_order example_config
       (partial_remote (GET_ORDER_FILES_FINANCIAL Invoice)) Invoice sample_order 0
       (initial_progress 0) fresh_world))) ''invoices/103.json'' = None \<and>
   map e_error (loadErrors (snd (snd (extract_order example_config
       (partial_remote (GET_ORDER_FILES_FINANCIAL Invoice)) Invoice sample_order 0
       (initial_progress 0) fresh_world)))) = [TypeError]"
proof (intro conjI)
  show "read_result (not_found_answer Invoice) = Inr (Some (JObj [(''invoice'', JNull)]))"
    by code_simp
  show "result (header_promise example_config (partial_remote (GET_ORDER_HEADER Invoice)) Invoice
             (ref_id sample_order) fresh_world) = Inr (Some (JObj [(''invoice'', JNull)]))"
    by code_simp
  show "member_names (order_files (snd (snd (extract_order example_config
       (partial_remote (GET_ORDER_HEADER Invoice)) Invoice sample_order 0 (initial_progress 0)
       fresh_world))) ''invoices/103.json'') =
     [''extractedAt'', ''type'', ''printavoId'', ''visualId'',
      ''lineItemGroups'', ''productionFiles'', ''fees'']"
    by code_simp
  show "loadErrors (snd (snd (extract_order example_config
       (partial_remote (GET_ORDER_HEADER Invoice)) Invoice sample_order 0 (initial_progress 0)
       fresh_world))) = []"
    by code_simp
  show "invoicesProcessed (fst (snd (extract_order example_config
       (partial_remote (GET_ORDER_HEADER Invoice)) Invoice sample_order 0 (initial_progress 0)
       fresh_world))) = 1"
    by code_simp
  show "errors (fst (snd (extract_order example_config
       (partial_remote (GET_ORDER_HEADER Invoice)) Invoice sample_order 0 (initial_progress 0)
       fresh_world))) = 0"
    by code_simp
  show "member_names (order_files (snd (snd (extract_order example_config
       (sample_remote ''A'') Invoice sample_order 0 (initial_progress 0)
       fresh_world))) ''invoices/103.json'') =
     [''extractedAt'', ''type'', ''printavoId'', ''visualId'', ''id'', ''nickname'',
      ''lineItemGroups'', ''productionFiles'', ''fees'']"
    by code_simp
  show "order_files (snd (snd (extract_order example_config
       (partial_remote (GET_ORDER_LINE_ITEMS Invoice)) Invoice sample_order 0 (initial_progress 0)
       fresh_world))) ''invoices/103.json'' = None"
    by code_simp
  show "map e_error (loadErrors (snd (snd (extract_order example_config
       (partial_remote (GET_ORDER_LINE_ITEMS Invoice)) Invoice sample_order 0 (initial_progress 0)
       fresh_world)))) = [TypeError]"
    by code_simp
  show "order_files (snd (snd (extract_order example_config
       (partial_remote (GET_ORDER_FILES_FINANCIAL Invoice)) Invoice sample_order 0
       (initial_progress 0) fresh_world))) ''invoices/103.json'' = None"
    by code_simp
  show "map e_error (loadErrors (snd (snd (extract_order example_config
       (partial_remote (GET_ORDER_FILES_FINANCIAL Invoice)) Invoice sample_order 0
       (initial_progress 0) fresh_world)))) = [TypeError]"
    by code_simp
qed

section \<open>The merge makes no id check\<close>

lemma obj_get_obj_set: "obj_get (obj_set k v ob) k' = (if k' = k then v else obj_get ob k')"
  by (simp add: obj_get_def obj_set_def update_conv')

lemma stamp_vars: "x \<in> set (stamp (q, vars) out) \<Longrightarrow> snd (snd x) = vars"
  by (auto simp: stamp_def)

lemma fetchOrderData_same_id:
  "\<forall>x \<in> set (drop (length (requests w)) (requests (snd (fetchOrderData cfg remote ty printavoId w)))).
     snd (snd x) = [(''id'', printavoId)]"
  by (auto simp: fetchOrderData_requests header_request_def line_items_request_def
      files_request_def dest: stamp_vars)

text \<open>
  C2, as the script has it. The merge compares no ids and raises no violation of its
  own: given a header document and line item and files documents that are objects,
  whatever ids the three carry, it returns the record made of the header's members with
  \<^verbatim>\<open>lineItemGroups\<close> taken from the second document and \<^verbatim>\<open>productionFiles\<close>, \<^verbatim>\<open>fees\<close>,
  \<^verbatim>\<open>expenses\<close>, \<^verbatim>\<open>tasks\<close> and \<^verbatim>\<open>transactions\<close> from the third. The three sub-queries of
  an order are all sent with the one id of its catalog entry.
\<close>

theorem merge_without_id_check:
  assumes "\<not> nullish headerData"
    and "get_prop lineItemsData (type_name ty) = Inr (Some (JObj lf))"
    and "get_prop filesData (type_name ty) = Inr (Some (JObj ff))"
  shows "(\<exists>orderData.
            merge_order ty headerData lineItemsData filesData = Inr orderData \<and>
            obj_get orderData ''lineItemGroups'' = map_of lf ''lineItemGroups'' \<and>
            obj_get orderData ''productionFiles'' = map_of ff ''productionFiles'' \<and>
            obj_get orderData ''fees'' = map_of ff ''fees'' \<and>
            obj_get orderData ''expenses'' = map_of ff ''expenses'' \<and>
            obj_get orderData ''tasks'' = map_of ff ''tasks'' \<and>
            obj_get orderData ''transactions'' = map_of ff ''transactions'' \<and>
            (\<forall>k. k \<notin> {''lineItemGroups'', ''productionFiles'', ''fees'', ''expenses'', ''tasks'',
                       ''transactions''} \<longrightarrow>
                 obj_get orderData k =
                   obj_get (obj_spread (spread (opt_prop headerData (type_name ty))) []) k)) \<and>
         (\<forall>x \<in> set (drop (length (requests w))
                     (requests (snd (fetchOrderData cfg remote ty printavoId w)))).
            snd (snd x) = [(''id'', printavoId)])"
proof -
  from assms(1) have h: "get_prop headerData (type_name ty) = Inr (opt_prop headerData (type_name ty))"
    by (simp add: get_prop_def nullish_def)
  have "merge_order ty headerData lineItemsData filesData =
          Inr (obj_set ''transactions'' (map_of ff ''transactions'')
              (obj_set ''tasks'' (map_of ff ''tasks'')
              (obj_set ''expenses'' (map_of ff ''expenses'')
              (obj_set ''fees'' (map_of ff ''fees'')
              (obj_set ''productionFiles'' (map_of ff ''productionFiles'')
              (obj_set ''lineItemGroups'' (map_of lf ''lineItemGroups'')
              (obj_spread (spread (opt_prop headerData (type_name ty))) [])))))))"
    by (simp add: merge_order_def h assms(2,3) nullish_def)
  then show ?thesis
    using fetchOrderData_same_id[of w cfg remote ty printavoId]
    by (simp add: obj_get_obj_set)
qed

theorem merge_without_id_check_witness:
  "\<exists>orderData.
     merge_order Invoice
       (Some (JObj [(''invoice'', sample_document ''B'' (GET_ORDER_HEADER Invoice))]))
       (Some (JObj [(''invoice'', JObj [(''id'', JStr ''B''), (''lineItemGroups'', JNull)])]))
       (Some (JObj [(''invoice'', JObj [(''id'', JStr ''C'')])])) = Inr orderData \<and>
     obj_get orderData ''lineItemGroups'' = Some JNull \<and>
     obj_get orderData ''id'' = Some (JStr ''A'')"
proof -
  let ?h = "Some (JObj [(''invoice'', sample_document ''B'' (GET_ORDER_HEADER Invoice))])"
  let ?l = "Some (JObj [(''invoice'', JObj [(''id'', JStr ''B''), (''lineItemGroups'', JNull)])])"
  let ?f = "Some (JObj [(''invoice'', JObj [(''id'', JStr ''C'')])])"
  have a1: "\<not> nullish ?h" by (simp add: nullish_def)
  have a2: "get_prop ?l (type_name Invoice) =
              Inr (Some (JObj [(''id'', JStr ''B''), (''lineItemGroups'', JNull)]))"
    by (simp add: get_prop_def)
  have a3: "get_prop ?f (type_name Invoice) = Inr (Some (JObj [(''id'', JStr ''C'')]))"
    by (simp add: get_prop_def)
  have hid: "obj_get (obj_spread (spread (opt_prop ?h (type_name Invoice))) []) ''id'' =
               Some (JStr ''A'')"
    by code_simp
  from merge_without_id_check [where w = fresh_world and cfg = example_config
      and remote = "sample_remote ''B''" and printavoId = None, OF a1 a2 a3]
  obtain orderData where od: "merge_order Invoice ?h ?l ?f = Inr orderData"
    and li: "obj_get orderData ''lineItemGroups'' =
               map_of [(''id'', JStr ''B''), (''lineItemGroups'', JNull)] ''lineItemGroups''"
    and rest: "\<forall>k. k \<notin> {''lineItemGroups'', ''productionFiles'', ''fees'', ''expenses'', ''tasks'',
                          ''transactions''} \<longrightarrow>
                 obj_get orderData k =
                   obj_get (obj_spread (spread (opt_prop ?h (type_name Invoice))) []) k"
    by blast
  from rest have "obj_get orderData ''id'' =
      obj_get (obj_spread (spread (opt_prop ?h (type_name Invoice))) []) ''id''"
    by simp
  with hid od li show ?thesis by simp
qed

text \<open>
  C2, as it is claimed, fails: a header with id \<^verbatim>\<open>A\<close> and a line item document with id
  \<^verbatim>\<open>B\<close> are merged without an error, and processing the order against a remote that
  answers so writes the record and no entry in the error file.
\<close>

theorem mismatched_ids_are_merged:
  "opt_prop (Some (sample_document ''B'' (GET_ORDER_HEADER Invoice))) ''id'' = Some (JStr ''A'') \<and>
   opt_prop (Some (sample_document ''B'' (GET_ORDER_LINE_ITEMS Invoice))) ''id'' = Some (JStr ''B'') \<and>
   \<not> isl (merge_order Invoice
            (Some (JObj [(''invoice'', sample_document ''B'' (GET_ORDER_HEADER Invoice))]))
            (Some (JObj [(''invoice'', sample_document ''B'' (GET_ORDER_LINE_ITEMS Invoice))]))
            (Some (JObj [(''invoice'', sample_document ''B'' (GET_ORDER_FILES_FINANCIAL Invoice))]))) \<and>
   order_files (snd (snd (extract_order example_config (sample_remote ''B'') Invoice sample_order 0
                            (initial_progress 0) fresh_world))) ''invoices/103.json'' \<noteq> None \<and>
   loadErrors (snd (snd (extract_order example_config (sample_remote ''B'') Invoice sample_order 0
                            (initial_progress 0) fresh_world))) = []"
  by code_simp

section \<open>Failures and retries\<close>

lemma example_settings:
  "max_retries example_config = 3" "retry_delay example_config = 5000"
  "rate_limit_delay example_config = 650"
  by (simp_all add: max_retries_def retry_delay_def rate_limit_delay_def example_config_def
      or_default_def)

lemma always_fails_iff:
  "always_fails cfg script \<longleftrightarrow>
     (\<forall>a. 1 \<le> a \<and> a \<le> max_retries cfg \<longrightarrow> isl (read_result (snd (script a))))"
  by (auto simp: always_fails_def)

lemma graphqlRequest_at_exhausted:
  assumes "always_fails cfg script"
  shows "result (graphqlRequest_at cfg script t) = read_result (snd (script (max_retries cfg)))"
    and "isl (result (graphqlRequest_at cfg script t))"
    and "length (sent (graphqlRequest_at cfg script t)) = max_retries cfg"
    and "waits (graphqlRequest_at cfg script t) =
           map (\<lambda>a. retry_delay cfg * a) [1..<max_retries cfg]"
  using request_loop_all_fail[of 1 "max_retries cfg" script cfg t] assms max_retries_pos[of cfg]
  by (simp_all add: graphqlRequest_at_def always_fails_iff)

text \<open>
  C6, as the script has it. A failed exchange is not classified. Every status outside
  200 to 299 is the same kind of error, an authentication rejection like a server
  fault, and so is a response of GraphQL errors without data, a malformed query among
  them. The retry loop looks only at whether an attempt failed: failures of any kind
  before attempt \<open>n\<close> are all retried; when attempt \<open>n\<close> succeeds its data are returned
  after \<open>n\<close> attempts, and when attempt \<open>n\<close> is the last allowed and fails too, its
  error is propagated after \<^verbatim>\<open>MAX_RETRIES\<close> attempts, the waits having been
  \<^verbatim>\<open>RETRY_DELAY\<close> times 1, 2 and so on. Whatever the failures, attempt \<open>i + 2\<close> is sent at
  least \<^verbatim>\<open>RETRY_DELAY\<close> times \<open>i + 1\<close> after attempt \<open>i + 1\<close>. A rejected \<^verbatim>\<open>fetch\<close> and
  a body that does not parse are errors of the same \<^verbatim>\<open>try\<close> block.
\<close>

theorem failures_are_not_classified:
  assumes "1 \<le> n" and "n \<le> max_retries cfg"
    and "\<forall>a. 1 \<le> a \<and> a < n \<longrightarrow> isl (read_result (snd (script a)))"
  shows "(\<forall>data. read_result (snd (script n)) = Inr data \<longrightarrow>
            result (graphqlRequest_at cfg script t) = Inr data \<and>
            length (sent (graphqlRequest_at cfg script t)) = n) \<and>
         (isl (read_result (snd (script n))) \<and> n = max_retries cfg \<longrightarrow>
            result (graphqlRequest_at cfg script t) = read_result (snd (script n)) \<and>
            length (sent (graphqlRequest_at cfg script t)) = max_retries cfg \<and>
            waits (graphqlRequest_at cfg script t) =
              map (\<lambda>a. retry_delay cfg * a) [1..<max_retries cfg]) \<and>
         (\<forall>i. Suc i < length (sent (graphqlRequest_at cfg script t)) \<longrightarrow>
            sent (graphqlRequest_at cfg script t) ! i + retry_delay cfg * (i + 1)
              \<le> sent (graphqlRequest_at cfg script t) ! Suc i) \<and>
         (\<forall>status text b. \<not> response_ok status \<longrightarrow>
            read_result (Response status text b) = Inl (HttpError status text)) \<and>
         (\<forall>es. es \<noteq> [] \<and> JNull \<notin> set es \<longrightarrow>
            isl (read_result (Response 200 ''OK'' (Json (JObj [(''errors'', JArr es)]))))) \<and>
         (\<forall>m. read_result (NetworkFailure m) = Inl (FetchError m)) \<and>
         (\<forall>status text. response_ok status \<longrightarrow>
            read_result (Response status text NotJson) = Inl SyntaxError)"
proof -
  have c1: "\<forall>data. read_result (snd (script n)) = Inr data \<longrightarrow>
            result (graphqlRequest_at cfg script t) = Inr data \<and>
            length (sent (graphqlRequest_at cfg script t)) = n"
  proof (intro allI impI)
    fix data
    assume "read_result (snd (script n)) = Inr data"
    from request_loop_first_success[OF assms(1,2) assms(3) this, of cfg t]
    show "result (graphqlRequest_at cfg script t) = Inr data \<and>
          length (sent (graphqlRequest_at cfg script t)) = n"
      by (simp add: graphqlRequest_at_def)
  qed
  have c2: "isl (read_result (snd (script n))) \<and> n = max_retries cfg \<longrightarrow>
            result (graphqlRequest_at cfg script t) = read_result (snd (script n)) \<and>
            length (sent (graphqlRequest_at cfg script t)) = max_retries cfg \<and>
            waits (graphqlRequest_at cfg script t) =
              map (\<lambda>a. retry_delay cfg * a) [1..<max_retries cfg]"
  proof
    assume last: "isl (read_result (snd (script n))) \<and> n = max_retries cfg"
    have "always_fails cfg script"
      unfolding always_fails_iff
    proof (intro allI impI)
      fix a
      assume a: "1 \<le> a \<and> a \<le> max_retries cfg"
      show "isl (read_result (snd (script a)))"
      proof (cases "a < n")
        case True
        with assms(3) a show ?thesis by blast
      next
        case False
        with last a have "a = n" by simp
        with last show ?thesis by auto
      qed
    qed
    from graphqlRequest_at_exhausted(1,3,4)[OF this, of t] last
    show "result (graphqlRequest_at cfg script t) = read_result (snd (script n)) \<and>
          length (sent (graphqlRequest_at cfg script t)) = max_retries cfg \<and>
          waits (graphqlRequest_at cfg script t) =
            map (\<lambda>a. retry_delay cfg * a) [1..<max_retries cfg]"
      by simp
  qed
  have c3: "\<forall>i. Suc i < length (sent (graphqlRequest_at cfg script t)) \<longrightarrow>
            sent (graphqlRequest_at cfg script t) ! i + retry_delay cfg * (i + 1)
              \<le> sent (graphqlRequest_at cfg script t) ! Suc i"
    using request_loop_spacing[of _ cfg script "max_retries cfg" 1 t]
    by (simp add: graphqlRequest_at_def)
  have c4: "\<forall>status text b. \<not> response_ok status \<longrightarrow>
            read_result (Response status text b) = Inl (HttpError status text)"
    by (simp add: read_result_def)
  have c5: "\<forall>es. es \<noteq> [] \<and> JNull \<notin> set es \<longrightarrow>
            isl (read_result (Response 200 ''OK'' (Json (JObj [(''errors'', JArr es)]))))"
    by (simp add: read_result_def response_ok_def get_prop_def graphql_error_def)
  have c6: "\<forall>m. read_result (NetworkFailure m) = Inl (FetchError m)"
    by (simp add: read_result_def)
  have c7: "\<forall>status text. response_ok status \<longrightarrow>
            read_result (Response status text NotJson) = Inl SyntaxError"
    by (simp add: read_result_def)
  show ?thesis
    by (rule conjI[OF c1 conjI[OF c2 conjI[OF c3 conjI[OF c4 conjI[OF c5 conjI[OF c6 c7]]]]]])
qed

theorem failures_are_not_classified_witness:
  "result (graphqlRequest_at example_config
      (\<lambda>a. if a = 1 then (100, Response 401 ''Unauthorized'' NotJson)
            else (100, sample_answer ''A'' VERIFY_ACCESS_QUERY)) 0)
     = read_result (sample_answer ''A'' VERIFY_ACCESS_QUERY) \<and>
   length (sent (graphqlRequest_at example_config
      (\<lambda>a. if a = 1 then (100, Response 401 ''Unauthorized'' NotJson)
            else (100, sample_answer ''A'' VERIFY_ACCESS_QUERY)) 0)) = 2"
proof -
  let ?script = "\<lambda>a::nat. if a = 1 then (100::nat, Response 401 ''Unauthorized'' NotJson)
            else (100, sample_answer ''A'' VERIFY_ACCESS_QUERY)"
  have a1: "(1::nat) \<le> 2" by simp
  have a2: "2 \<le> max_retries example_config"
    by (simp add: example_settings)
  have a3: "\<forall>a. 1 \<le> a \<and> a < 2 \<longrightarrow> isl (read_result (snd (?script a)))"
    by (auto simp: read_result_def response_ok_def)
  obtain data where d: "read_result (snd (?script 2)) = Inr data"
    by (simp add: read_result_def response_ok_def sample_answer_def get_prop_def)
  from failures_are_not_classified [where script = ?script and t = 0, OF a1 a2 a3] d
  have "result (graphqlRequest_at example_config ?script 0) = Inr data \<and>
        length (sent (graphqlRequest_at example_config ?script 0)) = 2"
    by blast
  with d show ?thesis by simp
qed

text \<open>
  C6, as it is claimed, fails: a request that is answered 401 Unauthorized every time is
  sent three times, with the same waits as any other failure, before the error reaches
  the caller; so is a query the remote rejects as malformed.
\<close>

theorem auth_rejection_is_retried:
  "sent (graphqlRequest_at example_config (\<lambda>a. (100, Response 401 ''Unauthorized'' NotJson)) 0)
     = [0, 5100, 15200] \<and>
   waits (graphqlRequest_at example_config (\<lambda>a. (100, Response 401 ''Unauthorized'' NotJson)) 0)
     = [5000, 10000] \<and>
   result (graphqlRequest_at example_config (\<lambda>a. (100, Response 401 ''Unauthorized'' NotJson)) 0)
     = Inl (HttpError 401 ''Unauthorized'') \<and>
   length (sent (graphqlRequest_at example_config
     (\<lambda>a. (100, Response 200 ''OK'' (Json (JObj [(''errors'',
              JArr [JObj [(''message'', JStr ''Field does not exist'')]])])))) 0)) = 3"
  by (simp add: graphqlRequest_at_def request_loop.simps example_settings read_result_def
      response_ok_def get_prop_def graphql_error_def Let_def)

section \<open>An order whose sub-query runs out of retries\<close>






section \<open>What processing one order changes\<close>

lemma extract_order_alt:
  "extract_order cfg remote ty order processed prog w =
     (case fst (fetchOrderData cfg remote ty (ref_id order) w) of
        Inl e \<Rightarrow> catch_block cfg ty order e processed prog
                   (snd (fetchOrderData cfg remote ty (ref_id order) w))
      | Inr orderData \<Rightarrow>
          (case countFiles orderData of
             Inl e \<Rightarrow> catch_block cfg ty order e processed prog
                        (snd (fetchOrderData cfg remote ty (ref_id order) w))
           | Inr fileCounts \<Rightarrow>
               (let w1 = snd (fetchOrderData cfg remote ty (ref_id order) w);
                    w2 = saveOrder ty (visualId order)
                           (output_data (clock w1) ty order orderData) w1;
                    prog1 = count_order ty order fileCounts prog
                in if (processed + 1) mod 10 = 0
                   then (processed + 1, fst (saveProgress prog1 w2),
                         delay (rate_limit_delay cfg) (snd (saveProgress prog1 w2)))
                   else (processed + 1, prog1, delay (rate_limit_delay cfg) w2))))"
  by (cases "fetchOrderData cfg remote ty (ref_id order) w")
     (simp add: extract_order_def Let_def case_prod_beta split: sum.splits)

lemma count_order_phase [simp]: "phase (count_order ty order fc prog) = phase prog"
  by (simp add: count_order_def Let_def)

lemma progress_on_file_phase [simp]: "phase (progress_on_file p) = phase p"
  by (simp add: progress_on_file_def)

lemma extract_order_frame:
  "calls (snd (snd (extract_order cfg remote ty order processed prog w))) = calls w + 3"
  "requests (snd (snd (extract_order cfg remote ty order processed prog w))) =
     requests (snd (fetchOrderData cfg remote ty (ref_id order) w))"
  "summary_file (snd (snd (extract_order cfg remote ty order processed prog w))) = summary_file w"
  "phase (fst (snd (extract_order cfg remote ty order processed prog w))) = phase prog"
  by (simp_all add: extract_order_alt Let_def split: sum.splits)



lemma extract_order_files_grow:
  assumes "\<not> orderExists w ty (visualId order)"
  shows "order_files w \<subseteq>\<^sub>m order_files (snd (snd (extract_order cfg remote ty order processed prog w)))"
  using assms
  by (auto simp: extract_order_files orderExists_def map_le_def split: sum.splits)


section \<open>What the loop over the orders keeps\<close>

lemma orderExists_mono:
  "order_files w \<subseteq>\<^sub>m order_files w' \<Longrightarrow> orderExists w ty v \<Longrightarrow> orderExists w' ty v"
  by (auto simp: orderExists_def map_le_def dom_def)

lemma extract_loop_step:
  "\<not> orderExists w ty (visualId order) \<Longrightarrow>
   extract_loop cfg remote ty (order # rest) processed skipped prog w =
     extract_loop cfg remote ty rest
       (fst (extract_order cfg remote ty order processed prog w)) skipped
       (fst (snd (extract_order cfg remote ty order processed prog w)))
       (snd (snd (extract_order cfg remote ty order processed prog w)))"
  by (simp add: case_prod_beta)

lemma extract_loop_skip:
  "orderExists w ty (visualId order) \<Longrightarrow>
   extract_loop cfg remote ty (order # rest) processed skipped prog w =
     extract_loop cfg remote ty rest processed (skipped + 1) prog w"
  by simp

lemma extract_loop_files_grow:
  "order_files w \<subseteq>\<^sub>m order_files (snd (snd (extract_loop cfg remote ty os processed skipped prog w)))"
proof (induction os arbitrary: processed skipped prog w)
  case Nil
  show ?case by simp
next
  case (Cons order rest)
  show ?case
  proof (cases "orderExists w ty (visualId order)")
    case True
    then show ?thesis using Cons.IH by (simp only: extract_loop_skip)
  next
    case False
    from extract_order_files_grow[OF False] Cons.IH show ?thesis
      by (simp only: extract_loop_step[OF False]) (rule map_le_trans)
  qed
qed





section \<open>Orders already on disk\<close>

lemma extract_order_requests:
  "\<exists>xs. requests (snd (snd (extract_order cfg remote ty order processed prog w))) = requests w @ xs \<and>
         (\<forall>x \<in> set xs. snd (snd x) = [(''id'', ref_id order)])"
  by (auto simp: extract_order_frame fetchOrderData_requests header_request_def
      line_items_request_def files_request_def dest: stamp_vars)

lemma extract_loop_requests:
  "\<exists>xs. requests (snd (snd (extract_loop cfg remote ty os processed skipped prog w))) = requests w @ xs \<and>
         (\<forall>x \<in> set xs. \<exists>order \<in> set os.
            \<not> orderExists w ty (visualId order) \<and> snd (snd x) = [(''id'', ref_id order)])"
proof (induction os arbitrary: processed skipped prog w)
  case Nil
  show ?case by simp
next
  case (Cons order rest)
  show ?case
  proof (cases "orderExists w ty (visualId order)")
    case True
    from Cons.IH[of processed "skipped + 1" prog w] True show ?thesis
      by (simp only: extract_loop_skip) auto
  next
    case False
    let ?s = "extract_order cfg remote ty order processed prog w"
    let ?w' = "snd (snd (extract_loop cfg remote ty rest (fst ?s) skipped (fst (snd ?s))
                           (snd (snd ?s))))"
    from extract_order_requests[of cfg remote ty order processed prog w]
    obtain xs where xs: "requests (snd (snd ?s)) = requests w @ xs"
      "\<forall>x \<in> set xs. snd (snd x) = [(''id'', ref_id order)]" by blast
    from Cons.IH[of "fst ?s" skipped "fst (snd ?s)" "snd (snd ?s)"]
    obtain ys where ys: "requests ?w' = requests (snd (snd ?s)) @ ys"
      "\<forall>x \<in> set ys. \<exists>order \<in> set rest.
          \<not> orderExists (snd (snd ?s)) ty (visualId order) \<and> snd (snd x) = [(''id'', ref_id order)]"
      by blast
    have grow: "order_files w \<subseteq>\<^sub>m order_files (snd (snd ?s))"
      by (rule extract_order_files_grow[OF False])
    have "\<forall>x \<in> set (xs @ ys). \<exists>r \<in> set (order # rest).
            \<not> orderExists w ty (visualId r) \<and> snd (snd x) = [(''id'', ref_id r)]"
    proof
      fix x
      assume "x \<in> set (xs @ ys)"
      then consider "x \<in> set xs" | "x \<in> set ys" by auto
      then show "\<exists>r \<in> set (order # rest).
            \<not> orderExists w ty (visualId r) \<and> snd (snd x) = [(''id'', ref_id r)]"
      proof cases
        case 1
        with xs(2) False show ?thesis by auto
      next
        case 2
        with ys(2) obtain r where r: "r \<in> set rest"
          "\<not> orderExists (snd (snd ?s)) ty (visualId r)"
          "snd (snd x) = [(''id'', ref_id r)]" by blast
        from r(2) have "\<not> orderExists w ty (visualId r)"
          using orderExists_mono[OF grow] by blast
        with r show ?thesis by auto
      qed
    qed
    with xs(1) ys(1) show ?thesis
      by (simp only: extract_loop_step[OF False]) (intro exI[of _ "xs @ ys"], simp)
  qed
qed

lemma length_filter_mono:
  "(\<And>x. x \<in> set xs \<Longrightarrow> P x \<Longrightarrow> Q x) \<Longrightarrow> length (filter P xs) \<le> length (filter Q xs)"
  by (induction xs) auto

lemma extract_loop_calls:
  "calls (snd (snd (extract_loop cfg remote ty os processed skipped prog w))) \<le>
     calls w + 3 * length (filter (\<lambda>order. \<not> orderExists w ty (visualId order)) os)"
proof (induction os arbitrary: processed skipped prog w)
  case Nil
  show ?case by simp
next
  case (Cons order rest)
  show ?case
  proof (cases "orderExists w ty (visualId order)")
    case True
    from Cons.IH[of processed "skipped + 1" prog w] True show ?thesis
      by (simp only: extract_loop_skip) simp
  next
    case False
    let ?s = "extract_order cfg remote ty order processed prog w"
    let ?w' = "snd (snd (extract_loop cfg remote ty rest (fst ?s) skipped (fst (snd ?s))
                           (snd (snd ?s))))"
    have grow: "order_files w \<subseteq>\<^sub>m order_files (snd (snd ?s))"
      by (rule extract_order_files_grow[OF False])
    have "length (filter (\<lambda>r. \<not> orderExists (snd (snd ?s)) ty (visualId r)) rest)
            \<le> length (filter (\<lambda>r. \<not> orderExists w ty (visualId r)) rest)"
      using orderExists_mono[OF grow] by (intro length_filter_mono) blast
    with Cons.IH[of "fst ?s" skipped "fst (snd ?s)" "snd (snd ?s)"] False
    show ?thesis
      by (simp only: extract_loop_step[OF False]) (simp add: extract_order_frame)
  qed
qed

text \<open>
  C4. An order whose file is on disk when the loop reaches it is skipped: the loop goes on
  from the very same state, so no request is sent for it and no file is touched. Over a
  whole list, every order file that was there before is there unchanged afterwards;
  every request sent is for an entry of the list that had no file when the loop began;
  and no entry is fetched more than once, the calls made being at most three for each
  such entry.
\<close>

theorem existing_orders_are_skipped:
  "(orderExists w ty (visualId order) \<longrightarrow>
      extract_loop cfg remote ty (order # rest) processed skipped prog w =
        extract_loop cfg remote ty rest processed (skipped + 1) prog w) \<and>
   (\<forall>path record. order_files w path = Some record \<longrightarrow>
      order_files (snd (snd (extractOrders cfg remote ty os prog w))) path = Some record) \<and>
   (\<forall>x \<in> set (drop (length (requests w))
                 (requests (snd (snd (extractOrders cfg remote ty os prog w))))).
      \<exists>order \<in> set os. \<not> orderExists w ty (visualId order) \<and>
                        snd (snd x) = [(''id'', ref_id order)]) \<and>
   calls (snd (snd (extractOrders cfg remote ty os prog w))) \<le>
     calls w + 3 * length (filter (\<lambda>order. \<not> orderExists w ty (visualId order)) os)"
proof -
  have a: "orderExists w ty (visualId order) \<longrightarrow>
      extract_loop cfg remote ty (order # rest) processed skipped prog w =
        extract_loop cfg remote ty rest processed (skipped + 1) prog w"
    by simp
  have b: "\<forall>path record. order_files w path = Some record \<longrightarrow>
      order_files (snd (snd (extractOrders cfg remote ty os prog w))) path = Some record"
    using extract_loop_files_grow[of w cfg remote ty os 0 0 prog]
    by (auto simp: extractOrders_def map_le_def dom_def)
  from extract_loop_requests[of cfg remote ty os 0 0 prog w]
  have c: "\<forall>x \<in> set (drop (length (requests w))
                 (requests (snd (snd (extractOrders cfg remote ty os prog w))))).
      \<exists>order \<in> set os. \<not> orderExists w ty (visualId order) \<and>
                        snd (snd x) = [(''id'', ref_id order)]"
    by (auto simp: extractOrders_def)
  have d: "calls (snd (snd (extractOrders cfg remote ty os prog w))) \<le>
     calls w + 3 * length (filter (\<lambda>order. \<not> orderExists w ty (visualId order)) os)"
    unfolding extractOrders_def by (rule extract_loop_calls)
  show ?thesis by (rule conjI[OF a conjI[OF b conjI[OF c d]]])
qed


theorem existing_orders_are_skipped_witness:
  "extract_loop example_config (sample_remote ''A'') Invoice [sample_order] 0 0 (initial_progress 0)
     (saveOrder Invoice (visualId sample_order) [] fresh_world) =
     (0, initial_progress 0, saveOrder Invoice (visualId sample_order) [] fresh_world) \<and>
   order_files (snd (snd (extractOrders example_config (sample_remote ''A'') Invoice [sample_order]
                  (initial_progress 0) (saveOrder Invoice (visualId sample_order) [] fresh_world))))
     (order_path Invoice (visualId sample_order)) = Some (stringify []) \<and>
   calls (snd (snd (extractOrders example_config (sample_remote ''A'') Invoice [sample_order]
                  (initial_progress 0) (saveOrder Invoice (visualId sample_order) [] fresh_world))))
     = 0"
proof -
  let ?w = "saveOrder Invoice (visualId sample_order) [] fresh_world"
  have ex: "orderExists ?w Invoice (visualId sample_order)"
    by (simp add: orderExists_def)
  have there: "order_files ?w (order_path Invoice (visualId sample_order)) = Some (stringify [])"
    by simp
  have none: "calls ?w = 0" by (simp add: fresh_world_def)
  note inst = existing_orders_are_skipped [of ?w Invoice sample_order example_config
      "sample_remote ''A''" "[]" 0 0 "initial_progress 0" "[sample_order]"]
  from inst ex have a: "extract_loop example_config (sample_remote ''A'') Invoice [sample_order] 0 0
      (initial_progress 0) ?w = (0, initial_progress 0, ?w)"
    by (simp del: extract_loop.simps(2))
  from inst there have b: "order_files (snd (snd (extractOrders example_config (sample_remote ''A'')
      Invoice [sample_order] (initial_progress 0) ?w))) (order_path Invoice (visualId sample_order))
      = Some (stringify [])"
    by blast
  from inst ex none have c: "calls (snd (snd (extractOrders example_config (sample_remote ''A'')
      Invoice [sample_order] (initial_progress 0) ?w))) = 0"
    by (simp del: extract_loop.simps(2))
  from a b c show ?thesis by blast
qed

section \<open>Walking a catalog\<close>

lemma push_nodes_catalog:
  "push_nodes (map (Some \<circ> node_json) ns) = Inr (map order_ref_of ns)"
  by (induction ns) (simp_all add: nullish_def node_json_def order_ref_of_def)

lemma read_page_catalog:
  assumes "map_of fs (dataKey ty) = Some (page_json ps)"
  shows "read_page ty (Some (JObj fs)) =
           (case ps of
              [] \<Rightarrow> Inr ([], Some (JBool False), Some JNull)
            | p # rest \<Rightarrow>
                Inr (map order_ref_of (snd p), Some (JBool (rest \<noteq> [])), Some (JStr (fst p))))"
  using assms
  by (simp add: read_page_def get_prop_def page_json_def push_nodes_catalog split: list.splits)

lemma pages_after_distinct:
  "distinct (map fst (pre @ p # later)) \<Longrightarrow> pages_after (fst p) (pre @ p # later) = later"
  by (induction pre) auto

lemma graphqlRequest_served:
  assumes "1 \<le> n" and "n \<le> max_retries cfg"
    and "\<forall>a. 1 \<le> a \<and> a < n \<longrightarrow> isl (read_result (snd (remote (calls w) req a)))"
    and "read_result (snd (remote (calls w) req n)) = Inr data"
  shows "fst (graphqlRequest cfg remote req w) = Inr data"
  using request_loop_first_success[where script = "remote (calls w) req" and cfg = cfg
      and t = "clock w", OF assms(1,2,3,4)]
  by (simp add: graphqlRequest_def graphqlRequest_at_def Let_def)

lemma fetch_pages_catalog:
  assumes "serves cfg remote ty pages" and "distinct (map fst pages)"
  shows "pages = pre @ rest \<Longrightarrow> pages_from cursor pages = rest \<Longrightarrow>
         \<exists>w'. fetch_pages cfg remote ty ids cursor page w =
                 Some (Inr (ids @ map order_ref_of (concat (map snd rest))), w')"
proof (induction rest arbitrary: pre ids cursor page w)
  case Nil
  from assms(1) obtain n fs where n: "1 \<le> n" "n \<le> max_retries cfg"
    "\<forall>a. 1 \<le> a \<and> a < n \<longrightarrow>
        isl (read_result (snd (remote (calls w) (list_query ty, [(''cursor'', cursor)]) a)))"
    "read_result (snd (remote (calls w) (list_query ty, [(''cursor'', cursor)]) n)) = Inr (Some (JObj fs))"
    "map_of fs (dataKey ty) = Some (page_json (pages_from cursor pages))"
    unfolding serves_def by blast
  let ?g = "graphqlRequest cfg remote (list_query ty, [(''cursor'', cursor)]) w"
  have g: "?g = (Inr (Some (JObj fs)), snd ?g)"
    using graphqlRequest_served[where remote = remote and w = w
        and req = "(list_query ty, [(''cursor'', cursor)])", OF n(1,2,3,4)]
    by (cases ?g) simp
  have rp: "read_page ty (Some (JObj fs)) = Inr ([], Some (JBool False), Some JNull)"
    using read_page_catalog[OF n(5)] Nil.prems(2) by simp
  show ?case
    by (subst fetch_pages.simps, subst g) (simp add: rp)
next
  case (Cons p later)
  from assms(1) obtain n fs where n: "1 \<le> n" "n \<le> max_retries cfg"
    "\<forall>a. 1 \<le> a \<and> a < n \<longrightarrow>
        isl (read_result (snd (remote (calls w) (list_query ty, [(''cursor'', cursor)]) a)))"
    "read_result (snd (remote (calls w) (list_query ty, [(''cursor'', cursor)]) n)) = Inr (Some (JObj fs))"
    "map_of fs (dataKey ty) = Some (page_json (pages_from cursor pages))"
    unfolding serves_def by blast
  let ?g = "graphqlRequest cfg remote (list_query ty, [(''cursor'', cursor)]) w"
  have g: "?g = (Inr (Some (JObj fs)), snd ?g)"
    using graphqlRequest_served[where remote = remote and w = w
        and req = "(list_query ty, [(''cursor'', cursor)])", OF n(1,2,3,4)]
    by (cases ?g) simp
  have rp: "read_page ty (Some (JObj fs)) =
              Inr (map order_ref_of (snd p), Some (JBool (later \<noteq> [])), Some (JStr (fst p)))"
    using read_page_catalog[OF n(5)] Cons.prems(2) by simp
  show ?case
  proof (cases "later = []")
    case True
    show ?thesis
      by (subst fetch_pages.simps, subst g) (simp add: rp True)
  next
    case False
    have split: "pages = (pre @ [p]) @ later" using Cons.prems(1) by simp
    have "pages_after (fst p) pages = later"
      using pages_after_distinct[of pre p later] assms(2) Cons.prems(1) by simp
    then have next_pages: "pages_from (Some (JStr (fst p))) pages = later"
      by (simp add: pages_from_def)
    from Cons.IH[OF split next_pages, of "ids @ map order_ref_of (snd p)" "page + 1"
        "delay (rate_limit_delay cfg) (snd ?g)"]
    obtain w' where "fetch_pages cfg remote ty (ids @ map order_ref_of (snd p))
        (Some (JStr (fst p))) (page + 1) (delay (rate_limit_delay cfg) (snd ?g)) =
        Some (Inr ((ids @ map order_ref_of (snd p)) @ map order_ref_of (concat (map snd later))), w')"
      by blast
    then show ?thesis
      by (subst fetch_pages.simps, subst g) (simp add: rp False)
  qed
qed

lemma shop_remote_serves:
  "serves cfg (shop_remote latency invoices quotes) Invoice invoices"
  "serves cfg (shop_remote latency invoices quotes) Quote quotes"
proof -
  have one: "1 \<le> max_retries cfg" by (rule max_retries_pos)
  show "serves cfg (shop_remote latency invoices quotes) Invoice invoices"
    unfolding serves_def
  proof (intro allI)
    fix k :: nat and cursor :: jsval
    show "\<exists>n fs. 1 \<le> n \<and> n \<le> max_retries cfg \<and>
        (\<forall>a. 1 \<le> a \<and> a < n \<longrightarrow>
           isl (read_result (snd (shop_remote latency invoices quotes k
                  (list_query Invoice, [(''cursor'', cursor)]) a)))) \<and>
        read_result (snd (shop_remote latency invoices quotes k
           (list_query Invoice, [(''cursor'', cursor)]) n)) = Inr (Some (JObj fs)) \<and>
        map_of fs (dataKey Invoice) = Some (page_json (pages_from cursor invoices))"
      using one
      by (intro exI[of _ 1] exI[of _ "[(''invoices'', page_json (pages_from cursor invoices))]"])
         (simp add: shop_remote_def read_result_def response_ok_def get_prop_def obj_get_def)
  qed
  show "serves cfg (shop_remote latency invoices quotes) Quote quotes"
    unfolding serves_def
  proof (intro allI)
    fix k :: nat and cursor :: jsval
    show "\<exists>n fs. 1 \<le> n \<and> n \<le> max_retries cfg \<and>
        (\<forall>a. 1 \<le> a \<and> a < n \<longrightarrow>
           isl (read_result (snd (shop_remote latency invoices quotes k
                  (list_query Quote, [(''cursor'', cursor)]) a)))) \<and>
        read_result (snd (shop_remote latency invoices quotes k
           (list_query Quote, [(''cursor'', cursor)]) n)) = Inr (Some (JObj fs)) \<and>
        map_of fs (dataKey Quote) = Some (page_json (pages_from cursor quotes))"
      using one
      by (intro exI[of _ 1] exI[of _ "[(''quotes'', page_json (pages_from cursor quotes))]"])
         (simp add: shop_remote_def read_result_def response_ok_def get_prop_def obj_get_def)
  qed
qed

lemma order_ref_of_inj: "inj order_ref_of"
  by (auto simp: inj_on_def order_ref_of_def prod_eq_iff)

text \<open>
  C8. Against a remote that serves a catalog of pages linked by distinct cursor tokens,
  \<^verbatim>\<open>fetchAllOrderIds\<close> returns, and returns the ids of all the pages in the order the
  pages hold them: as many as the catalog has, none missing, and none twice when the
  catalog has none twice. The number of pages plays no part, and an empty catalog gives
  the empty list.
\<close>

theorem walker_returns_whole_catalog:
  assumes "serves cfg remote ty pages" and "distinct (map fst pages)"
  shows "(\<exists>w'. fetchAllOrderIds cfg remote ty w =
                 Some (Inr (map order_ref_of (concat (map snd pages))), w')) \<and>
         length (map order_ref_of (concat (map snd pages))) = sum_list (map (length \<circ> snd) pages) \<and>
         (distinct (concat (map snd pages)) \<longrightarrow>
            distinct (map order_ref_of (concat (map snd pages))))"
proof -
  have start: "pages_from (Some JNull) pages = pages" by (simp add: pages_from_def)
  from fetch_pages_catalog[OF assms, of "[]" pages "Some JNull" "[]" 0 w] start
  have a: "\<exists>w'. fetchAllOrderIds cfg remote ty w =
                 Some (Inr (map order_ref_of (concat (map snd pages))), w')"
    by (simp add: fetchAllOrderIds_def)
  have b: "length (map order_ref_of (concat (map snd pages))) = sum_list (map (length \<circ> snd) pages)"
    by (simp add: length_concat comp_def)
  have c: "distinct (concat (map snd pages)) \<longrightarrow>
            distinct (map order_ref_of (concat (map snd pages)))"
  proof
    assume d: "distinct (concat (map snd pages))"
    have i: "inj_on order_ref_of (set (concat (map snd pages)))"
      by (rule inj_on_subset[OF order_ref_of_inj]) simp
    from d i show "distinct (map order_ref_of (concat (map snd pages)))"
      unfolding distinct_map by blast
  qed
  from a b c show ?thesis by blast
qed


theorem walker_returns_whole_catalog_witness:
  "\<exists>w'. fetchAllOrderIds example_config
           (shop_remote 100 [(''c1'', [(''A'', ''104''), (''B'', ''103'')]), (''c2'', [(''C'', ''102'')])] [])
           Invoice fresh_world =
         Some (Inr [\<lparr>ref_id = Some (JStr ''A''), visualId = Some (JStr ''104'')\<rparr>,
                    \<lparr>ref_id = Some (JStr ''B''), visualId = Some (JStr ''103'')\<rparr>,
                    \<lparr>ref_id = Some (JStr ''C''), visualId = Some (JStr ''102'')\<rparr>], w')"
proof -
  let ?pages = "[(''c1'', [(''A'', ''104''), (''B'', ''103'')]), (''c2'', [(''C'', ''102'')])]"
  have tokens: "distinct (map fst ?pages)" by simp
  from walker_returns_whole_catalog [OF shop_remote_serves(1) tokens,
      of example_config 100 "[]" fresh_world]
  show ?thesis by (simp add: order_ref_of_def)
qed

section \<open>Phases\<close>






lemma verify_access_frame [simp]:
  "calls (snd (verify_access cfg remote w)) = calls w + 1"
  "order_files (snd (verify_access cfg remote w)) = order_files w"
  "progress_file (snd (verify_access cfg remote w)) = progress_file w"
  "checkpoints (snd (verify_access cfg remote w)) = checkpoints w"
  "errors_file (snd (verify_access cfg remote w)) = errors_file w"
  "summary_file (snd (verify_access cfg remote w)) = summary_file w"
  "requests (snd (verify_access cfg remote w)) =
     requests w @ stamp (VERIFY_ACCESS_QUERY, [])
       (graphqlRequest_at cfg (remote (calls w) (VERIFY_ACCESS_QUERY, [])) (clock w))"
proof -
  let ?g = "graphqlRequest cfg remote (VERIFY_ACCESS_QUERY, []) w"
  have v: "snd (verify_access cfg remote w) = snd ?g"
    by (cases ?g) (simp add: verify_access_def split: sum.splits)
  show "calls (snd (verify_access cfg remote w)) = calls w + 1"
    "order_files (snd (verify_access cfg remote w)) = order_files w"
    "progress_file (snd (verify_access cfg remote w)) = progress_file w"
    "checkpoints (snd (verify_access cfg remote w)) = checkpoints w"
    "errors_file (snd (verify_access cfg remote w)) = errors_file w"
    "summary_file (snd (verify_access cfg remote w)) = summary_file w"
    by (simp_all add: v)
  show "requests (snd (verify_access cfg remote w)) =
     requests w @ stamp (VERIFY_ACCESS_QUERY, [])
       (graphqlRequest_at cfg (remote (calls w) (VERIFY_ACCESS_QUERY, [])) (clock w))"
    by (simp add: v graphqlRequest_def Let_def)
qed

lemma write_summary_frame [simp]:
  "calls (write_summary p w) = calls w"
  "requests (write_summary p w) = requests w"
  "order_files (write_summary p w) = order_files w"
  "progress_file (write_summary p w) = progress_file w"
  "checkpoints (write_summary p w) = checkpoints w"
  "errors_file (write_summary p w) = errors_file w"
  by (simp_all add: write_summary_def)


lemma phase_rank_simps [simp]:
  "phase_rank (Some ''quotes'') = 1" "phase_rank (Some ''complete'') = 2"
  "phase_rank (Some ''invoices'') = 0"
  by (simp_all add: phase_rank_def not_str_def)









section \<open>The phase only moves forward\<close>





section \<open>Pacing\<close>


















section \<open>Where the requests are paced\<close>




section \<open>Loading the checkpoint\<close>

text \<open>
  C10. When \<^verbatim>\<open>progress.json\<close> is absent or does not parse, \<^verbatim>\<open>loadProgress\<close> does not
  fail: it returns the initial state, with phase invoices, no last processed id, every
  count at zero and the current time as both timestamps. The run then starts with the
  first phase.
\<close>

theorem loadProgress_fallback:
  assumes "progress_file w = Absent \<or> progress_file w = Unparseable"
  shows "loadProgress w =
           \<lparr>phase = Some ''invoices'', lastProcessedVisualId = Some JNull,
            invoicesProcessed = 0, quotesProcessed = 0,
            totalProductionFiles = Num 0, totalLineItemMockups = Num 0,
            totalImprintMockups = Num 0, errors = 0,
            startedAt = clock w, lastUpdated = clock w\<rparr> \<and>
         phase_rank (phase (loadProgress w)) = 0"
  using assms by (auto simp: loadProgress_def initial_progress_def phase_rank_def)

theorem loadProgress_fallback_witness:
  "loadProgress (fresh_world\<lparr>progress_file := Unparseable\<rparr>) =
     \<lparr>phase = Some ''invoices'', lastProcessedVisualId = Some JNull,
      invoicesProcessed = 0, quotesProcessed = 0,
      totalProductionFiles = Num 0, totalLineItemMockups = Num 0,
      totalImprintMockups = Num 0, errors = 0,
      startedAt = 0, lastUpdated = 0\<rparr>"
  using loadProgress_fallback [of "fresh_world\<lparr>progress_file := Unparseable\<rparr>"]
  by (simp add: fresh_world_def)

section \<open>The configuration check\<close>

text \<open>
  C9. The check at startup rejects a missing email, a missing token and the placeholder
  email. It does not look at the placeholder token of \<^verbatim>\<open>config.example.js\<close>: with a
  real email and the token still \<^verbatim>\<open>your-api-token-here\<close> the configuration is accepted and
  the access check is sent (three attempts against a remote that answers 401) before the
  script exits with status 1.
\<close>

theorem placeholder_token_accepted:
  "\<not> config_rejected (example_config\<lparr>PRINTAVO_TOKEN := Some ''your-api-token-here''\<rparr>) \<and>
   map_option (\<lambda>(status, w). (status, map fst (requests w)))
     (extract_all_data (example_config\<lparr>PRINTAVO_TOKEN := Some ''your-api-token-here''\<rparr>)
        (constant_remote 100 (Response 401 ''Unauthorized'' NotJson)) fresh_world)
   = Some (1, [0, 5100, 15200])"
  by (simp add: config_rejected_def example_config_def not_str_def extract_all_data_def main_def
      verify_access_def graphqlRequest_def graphqlRequest_at_def request_loop.simps
      constant_remote_def read_result_def response_ok_def max_retries_def retry_delay_def
      or_default_def fresh_world_def stamp_def loadProgress_def Let_def)

end
